theory Spec2Isabelle
  imports Main "HOL-Library.Finite_Map"
begin

section \<open>The pgo-raftkv driver of go-ycsb (db/pgo-raftkv/db.go)\<close>

text \<open>
  The driver turns the benchmark's Read, Update, Insert, Delete and Scan into Get and Put
  requests handed to a PGo runtime over Go channels, and checks the responses. The model
  is a shallow embedding of db.go: Go structs are records, panics and returned errors
  are values, the channels of one worker are part of an explicit thread state, and what the
  runtime does (answering on \<open>outCh\<close>, letting the request timeout elapse, taking the
  timeout signal) is a list of events that the two waiting loops consume.
\<close>

subsection \<open>Values of the TLA+ runtime library\<close>

text \<open>
  \<open>tla.TLAValue\<close> of the PGo runtime: booleans, numbers, strings and functions (records are
  functions whose keys are strings). A function is a finite map, so that \<open>Equal\<close> is
  equality. A key is an atomic value; the driver only ever builds string keys, and
  meets other keys only when it iterates over a function it received.
\<close>

datatype tla_key = StringKey string | NumberKey int | BoolKey bool

datatype tla_value =
    TLABool bool
  | TLANumber int
  | TLAString string
  | TLAFunction "(tla_key, tla_value) fmap"

text \<open>Everything that stops the process: \<open>panic\<close> in db.go, in the Go runtime or in the
  TLA+ library (which panics on a value of the wrong kind and outside a function's domain).\<close>

datatype panic =
    DataIntegrityFailed
  | TLATypeError
  | ReplyPointsMismatch
  | IndexOutOfRange
  | TooManyClientThreads
  | MarshalFailed
  | NilMapAssignment

text \<open>A Go \<open>error\<close> made by \<open>fmt.Errorf\<close>, with its message.\<close>

datatype error = Errorf string

definition bind :: "panic + 'a \<Rightarrow> ('a \<Rightarrow> panic + 'b) \<Rightarrow> panic + 'b" where
  "bind x f = (case x of Inl p \<Rightarrow> Inl p | Inr v \<Rightarrow> f v)"

definition TLA_TRUE :: tla_value where
  "TLA_TRUE = TLABool True"

definition MakeTLARecord :: "(tla_key \<times> tla_value) list \<Rightarrow> tla_value" where
  "MakeTLARecord pairs = TLAFunction (foldl (\<lambda>m (k, v). fmupd k v m) fmempty pairs)"

fun ApplyFunction :: "tla_value \<Rightarrow> tla_key \<Rightarrow> panic + tla_value" where
  "ApplyFunction (TLAFunction f) k =
     (case fmlookup f k of None \<Rightarrow> Inl TLATypeError | Some v \<Rightarrow> Inr v)"
| "ApplyFunction _ k = Inl TLATypeError"

fun AsBool :: "tla_value \<Rightarrow> panic + bool" where
  "AsBool (TLABool b) = Inr b"
| "AsBool _ = Inl TLATypeError"

fun AsString :: "tla_value \<Rightarrow> panic + string" where
  "AsString (TLAString s) = Inr s"
| "AsString _ = Inl TLATypeError"

fun AsFunction :: "tla_value \<Rightarrow> panic + (tla_key, tla_value) fmap" where
  "AsFunction (TLAFunction f) = Inr f"
| "AsFunction _ = Inl TLATypeError"

subsection \<open>Go maps, byte strings and formatting\<close>

text \<open>
  \<open>map[string][]byte\<close>: a finite map from field names to byte strings, or the nil map
  (\<open>None\<close>). Reading and ranging over the nil map is allowed in Go and sees no entry;
  assigning into it panics.
\<close>

type_synonym fields = "(string, string) fmap"
type_synonym gomap = "fields option"

definition entries :: "gomap \<Rightarrow> fields" where
  "entries m = (case m of None \<Rightarrow> fmempty | Some f \<Rightarrow> f)"

text \<open>\<open>fmt.Sprintf("%d", n)\<close> for a length \<open>n\<close> (never negative).\<close>

fun Sprintf_d :: "nat \<Rightarrow> string" where
  "Sprintf_d n =
     (if n < 10 then [''0123456789'' ! n]
      else Sprintf_d (n div 10) @ [''0123456789'' ! (n mod 10)])"

declare Sprintf_d.simps [simp del]

subsection \<open>What the driver takes from other packages\<close>

text \<open>
  The message tags of the generated \<open>raftkvs\<close> package (\<open>raftkvs.Get\<close>, \<open>raftkvs.Put\<close>,
  \<open>raftkvs.ClientGetResponse\<close>, \<open>raftkvs.ClientPutResponse\<close>) and \<open>json.Marshal\<close> at type
  \<open>*map[string][]byte\<close> are not part of db.go: they are parameters of the model.
\<close>

record externals =
  kvs_Get :: tla_value
  kvs_Put :: tla_value
  kvs_ClientGetResponse :: tla_value
  kvs_ClientPutResponse :: tla_value
  json_Marshal :: "gomap \<Rightarrow> error + string"

subsection \<open>The client and its worker threads\<close>

text \<open>
  \<open>raftClientThread\<close>: \<open>self\<close> is the reply address the runtime context was created with;
  \<open>inCh\<close> is the sequence of requests the runtime has received on the unbuffered request
  channel, oldest first; \<open>timeoutCh\<close> is the buffer of the timeout-signal channel, made
  with capacity 1. The response channel and the timer are the event list below.
\<close>

record raftClientThread =
  self :: string
  inCh :: "tla_value list"
  timeoutCh :: "tla_value list"

record raftClient =
  endpoints :: "string list"
  endpointMonitors :: "(string, string) fmap"
  clientReplyPoints :: "string list"
  requestTimeout :: int
  useInts :: bool
  clientThreads :: "raftClientThread list"

definition timeoutCh_cap :: nat where
  "timeoutCh_cap = 1"

text \<open>How a call ends: it returns, it panics, or it is still blocked in its waiting loop
  when the events run out.\<close>

datatype 'a outcome = Returned 'a | Panicked panic | Blocked

text \<open>
  What a waiting loop can observe: a response on \<open>outCh\<close>, or \<open>time.After(requestTimeout)\<close>
  firing. \<open>SignalTaken\<close> is the runtime receiving from \<open>timeoutCh\<close> while the loop waits.
\<close>

datatype event = Response tla_value | Timeout | SignalTaken

fun is_Response :: "event \<Rightarrow> bool" where
  "is_Response (Response r) = True"
| "is_Response _ = False"

subsection \<open>assert\<close>

definition assert :: "bool \<Rightarrow> panic + unit" where
  "assert cond = (if \<not> cond then Inl DataIntegrityFailed else Inr ())"

subsection \<open>InitThread\<close>

text \<open>
  Lines 59-124. The new thread's channels are empty. Building the runtime context only
  stores its arguments; the context is represented by the address it is bound to.
\<close>

definition InitThread ::
  "raftClient \<Rightarrow> int \<Rightarrow> int \<Rightarrow> raftClientThread outcome \<times> raftClient" where
  "InitThread cfg threadIdx threadCount =
     (if threadCount \<noteq> int (length (clientReplyPoints cfg))
      then (Panicked ReplyPointsMismatch, cfg)
      else if threadIdx < 0 \<or> int (length (clientReplyPoints cfg)) \<le> threadIdx
      then (Panicked IndexOutOfRange, cfg)
      else
        let clientThread =
              \<lparr>self = clientReplyPoints cfg ! nat threadIdx, inCh = [], timeoutCh = []\<rparr>;
            cfg' = cfg\<lparr>clientThreads := clientThreads cfg @ [clientThread]\<rparr>
        in if int (length (clientThreads cfg')) > threadCount
           then (Panicked TooManyClientThreads, cfg')
           else (Returned clientThread, cfg'))"

subsection \<open>The timeout branch of the waiting loops\<close>

text \<open>
  Lines 175-182 and 240-247, the same in both loops: a non-blocking receive empties the
  signal channel if something is pending, then one \<open>TLA_TRUE\<close> is sent. A send on a full
  buffered channel blocks: \<open>None\<close>.
\<close>

definition clear_timeout :: "tla_value list \<Rightarrow> tla_value list" where
  "clear_timeout buf = (case buf of [] \<Rightarrow> [] | s # rest \<Rightarrow> rest)"

definition chan_send :: "nat \<Rightarrow> tla_value list \<Rightarrow> tla_value \<Rightarrow> tla_value list option" where
  "chan_send cap buf v = (if length buf < cap then Some (buf @ [v]) else None)"

definition on_timeout :: "raftClientThread \<Rightarrow> raftClientThread option" where
  "on_timeout client =
     (case chan_send timeoutCh_cap (clear_timeout (timeoutCh client)) TLA_TRUE of
        None \<Rightarrow> None
      | Some buf \<Rightarrow> Some (client\<lparr>timeoutCh := buf\<rparr>))"

definition signal_taken :: "raftClientThread \<Rightarrow> raftClientThread" where
  "signal_taken client = client\<lparr>timeoutCh := clear_timeout (timeoutCh client)\<rparr>"

subsection \<open>The value codec\<close>

text \<open>
  Structured mode, lines 213-220: one record field per entry of the Go map, the field
  named by the key and holding the bytes as a TLA+ string. The loop ranges over the map in
  an order Go does not fix; the record built does not depend on it.
\<close>

setup_lifting type_definition_fmap

lift_definition string_record :: "fields \<Rightarrow> (tla_key, tla_value) fmap" is
  "\<lambda>m k. case k of StringKey s \<Rightarrow> map_option TLAString (m s) | _ \<Rightarrow> None"
proof -
  fix m :: "string \<Rightarrow> string option"
  assume fin: "finite (dom m)"
  have "dom (\<lambda>k. case k of StringKey s \<Rightarrow> map_option TLAString (m s) | _ \<Rightarrow> None)
          \<subseteq> StringKey ` dom m"
    by (force split: tla_key.splits)
  with fin show "finite (dom (\<lambda>k. case k of StringKey s \<Rightarrow> map_option TLAString (m s)
                                   | _ \<Rightarrow> None))"
    by (meson finite_imageI finite_subset)
qed

text \<open>The closure \<open>kvFn\<close> of Insert, lines 205-221.\<close>

definition kvFn :: "externals \<Rightarrow> raftClient \<Rightarrow> gomap \<Rightarrow> panic + tla_value" where
  "kvFn ext cfg values =
     (if useInts cfg then
        (case json_Marshal ext values of
           Inl err \<Rightarrow> Inl MarshalFailed
         | Inr valuesBytes \<Rightarrow> Inr (TLAString (Sprintf_d (length valuesBytes))))
      else Inr (TLAFunction (string_record (entries values))))"

text \<open>
  The field filter of Read, lines 134-140: nil when no field is asked for, else a map
  holding \<open>true\<close> at every field asked for. Looking a missing key up gives \<open>false\<close>.
\<close>

type_synonym field_filter = "(string, bool) fmap option"

definition make_fieldFilter :: "string list \<Rightarrow> field_filter" where
  "make_fieldFilter fs =
     (if length fs \<noteq> 0 then Some (foldl (\<lambda>m field. fmupd field True m) fmempty fs)
      else None)"

definition keeps :: "field_filter \<Rightarrow> string \<Rightarrow> bool" where
  "keeps fieldFilter kStr =
     (case fieldFilter of
        None \<Rightarrow> True
      | Some m \<Rightarrow> (case fmlookup m kStr of None \<Rightarrow> False | Some b \<Rightarrow> b))"

text \<open>
  The decoding loop of Read, lines 165-173. Every key met must be a string, and the value
  of every entry that passes the filter must be a string: \<open>AsString\<close> panics otherwise.
  The value of an entry the filter drops is not looked at.
\<close>

definition entry_ok :: "field_filter \<Rightarrow> tla_key \<Rightarrow> tla_value \<Rightarrow> bool" where
  "entry_ok fieldFilter k v =
     (case k of
        StringKey kStr \<Rightarrow>
          (if keeps fieldFilter kStr then (case v of TLAString b \<Rightarrow> True | _ \<Rightarrow> False)
           else True)
      | _ \<Rightarrow> False)"

lift_definition kept_fields :: "field_filter \<Rightarrow> (tla_key, tla_value) fmap \<Rightarrow> fields" is
  "\<lambda>fieldFilter f kStr.
     if keeps fieldFilter kStr
     then (case f (StringKey kStr) of Some (TLAString b) \<Rightarrow> Some b | _ \<Rightarrow> None)
     else None"
proof -
  fix fieldFilter :: field_filter and f :: "tla_key \<Rightarrow> tla_value option"
  assume fin: "finite (dom f)"
  let ?g = "\<lambda>kStr. if keeps fieldFilter kStr
     then (case f (StringKey kStr) of Some (TLAString b) \<Rightarrow> Some b | _ \<Rightarrow> None)
     else None"
  have "dom ?g \<subseteq> (\<lambda>k. case k of StringKey s \<Rightarrow> s | _ \<Rightarrow> []) ` dom f"
    by (force split: if_splits option.splits tla_value.splits)
  with fin show "finite (dom ?g)"
    by (meson finite_imageI finite_subset)
qed

definition decode_loop ::
  "(tla_key, tla_value) fmap \<Rightarrow> field_filter \<Rightarrow> panic + fields" where
  "decode_loop f fieldFilter =
     (if fmpred (entry_ok fieldFilter) f then Inr (kept_fields fieldFilter f)
      else Inl TLATypeError)"

subsection \<open>Read\<close>

text \<open>What Read does with a response, lines 150-174, in the order of the source.\<close>

definition Read_response ::
  "externals \<Rightarrow> raftClient \<Rightarrow> string \<Rightarrow> field_filter \<Rightarrow> tla_value
     \<Rightarrow> panic + (gomap \<times> error option)" where
  "Read_response ext cfg keyStr fieldFilter resp =
     bind (bind (ApplyFunction resp (StringKey ''msuccess'')) AsBool) (\<lambda>msuccess.
     bind (assert msuccess) (\<lambda>_.
     bind (ApplyFunction resp (StringKey ''mtype'')) (\<lambda>typ.
     bind (ApplyFunction resp (StringKey ''mresponse'')) (\<lambda>mresp.
     bind (bind (ApplyFunction mresp (StringKey ''key'')) AsString) (\<lambda>respKey.
     bind (assert (typ = kvs_ClientGetResponse ext)) (\<lambda>_.
     bind (assert (respKey = keyStr)) (\<lambda>_.
     bind (bind (ApplyFunction mresp (StringKey ''ok'')) AsBool) (\<lambda>ok.
       if \<not> ok then Inr (None, Some (Errorf (''key not found: '' @ keyStr)))
       else if useInts cfg then Inr (Some fmempty, None)
       else
         bind (bind (ApplyFunction mresp (StringKey ''value'')) AsFunction) (\<lambda>f.
         bind (decode_loop f fieldFilter) (\<lambda>result.
           Inr (Some result, None)))))))))))"

text \<open>The loop of lines 146-183.\<close>

fun Read_wait ::
  "externals \<Rightarrow> raftClient \<Rightarrow> string \<Rightarrow> field_filter \<Rightarrow> raftClientThread \<Rightarrow> event list
     \<Rightarrow> (gomap \<times> error option) outcome \<times> raftClientThread \<times> event list" where
  "Read_wait ext cfg keyStr fieldFilter client [] = (Blocked, client, [])"
| "Read_wait ext cfg keyStr fieldFilter client (Response resp # evs) =
     (case Read_response ext cfg keyStr fieldFilter resp of
        Inl p \<Rightarrow> (Panicked p, client, evs)
      | Inr r \<Rightarrow> (Returned r, client, evs))"
| "Read_wait ext cfg keyStr fieldFilter client (Timeout # evs) =
     (case on_timeout client of
        None \<Rightarrow> (Blocked, client, evs)
      | Some client' \<Rightarrow> Read_wait ext cfg keyStr fieldFilter client' evs)"
| "Read_wait ext cfg keyStr fieldFilter client (SignalTaken # evs) =
     Read_wait ext cfg keyStr fieldFilter (signal_taken client) evs"

definition get_request :: "externals \<Rightarrow> string \<Rightarrow> tla_value" where
  "get_request ext keyStr =
     MakeTLARecord
       [(StringKey ''type'', kvs_Get ext),
        (StringKey ''key'', TLAString keyStr)]"

definition Read ::
  "externals \<Rightarrow> raftClient \<Rightarrow> raftClientThread \<Rightarrow> string \<Rightarrow> string \<Rightarrow> string list
     \<Rightarrow> event list
     \<Rightarrow> (gomap \<times> error option) outcome \<times> raftClientThread \<times> event list" where
  "Read ext cfg client table key fs evs =
     (let keyStr = table @ ''/'' @ key;
          fieldFilter = make_fieldFilter fs;
          client' = client\<lparr>inCh := inCh client @ [get_request ext keyStr]\<rparr>
      in Read_wait ext cfg keyStr fieldFilter client' evs)"

subsection \<open>Scan\<close>

definition Scan ::
  "externals \<Rightarrow> raftClient \<Rightarrow> raftClientThread \<Rightarrow> string \<Rightarrow> string \<Rightarrow> int \<Rightarrow> string list
     \<Rightarrow> event list
     \<Rightarrow> (gomap list option \<times> error option) outcome \<times> raftClientThread \<times> event list" where
  "Scan ext cfg client table startKey count fs evs =
     (Returned (None, Some (Errorf ''pgo-raftkv does not implement key scan'')), client, evs)"

subsection \<open>Insert\<close>

text \<open>What Insert does with a response, lines 232-239.\<close>

definition Insert_response ::
  "externals \<Rightarrow> string \<Rightarrow> tla_value \<Rightarrow> tla_value \<Rightarrow> panic + error option" where
  "Insert_response ext keyStr kv resp =
     bind (bind (ApplyFunction resp (StringKey ''msuccess'')) AsBool) (\<lambda>msuccess.
     bind (assert msuccess) (\<lambda>_.
     bind (ApplyFunction resp (StringKey ''mtype'')) (\<lambda>typ.
     bind (ApplyFunction resp (StringKey ''mresponse'')) (\<lambda>mresp.
     bind (bind (ApplyFunction mresp (StringKey ''key'')) AsString) (\<lambda>respKey.
     bind (assert (typ = kvs_ClientPutResponse ext)) (\<lambda>_.
     bind (assert (respKey = keyStr)) (\<lambda>_.
     bind (ApplyFunction mresp (StringKey ''value'')) (\<lambda>echoed.
     bind (assert (echoed = kv)) (\<lambda>_.
       Inr None)))))))))"

text \<open>The loop of lines 228-248.\<close>

fun Insert_wait ::
  "externals \<Rightarrow> string \<Rightarrow> tla_value \<Rightarrow> raftClientThread \<Rightarrow> event list
     \<Rightarrow> error option outcome \<times> raftClientThread \<times> event list" where
  "Insert_wait ext keyStr kv client [] = (Blocked, client, [])"
| "Insert_wait ext keyStr kv client (Response resp # evs) =
     (case Insert_response ext keyStr kv resp of
        Inl p \<Rightarrow> (Panicked p, client, evs)
      | Inr r \<Rightarrow> (Returned r, client, evs))"
| "Insert_wait ext keyStr kv client (Timeout # evs) =
     (case on_timeout client of
        None \<Rightarrow> (Blocked, client, evs)
      | Some client' \<Rightarrow> Insert_wait ext keyStr kv client' evs)"
| "Insert_wait ext keyStr kv client (SignalTaken # evs) =
     Insert_wait ext keyStr kv (signal_taken client) evs"

definition put_request :: "externals \<Rightarrow> string \<Rightarrow> tla_value \<Rightarrow> tla_value" where
  "put_request ext keyStr kv =
     MakeTLARecord
       [(StringKey ''type'', kvs_Put ext),
        (StringKey ''key'', TLAString keyStr),
        (StringKey ''value'', kv)]"

definition Insert ::
  "externals \<Rightarrow> raftClient \<Rightarrow> raftClientThread \<Rightarrow> string \<Rightarrow> string \<Rightarrow> gomap \<Rightarrow> event list
     \<Rightarrow> error option outcome \<times> raftClientThread \<times> event list" where
  "Insert ext cfg client table key values evs =
     (let keyStr = table @ ''/'' @ key
      in case kvFn ext cfg values of
           Inl p \<Rightarrow> (Panicked p, client, evs)
         | Inr kv \<Rightarrow>
             Insert_wait ext keyStr kv
               (client\<lparr>inCh := inCh client @ [put_request ext keyStr kv]\<rparr>) evs)"

subsection \<open>Update and Delete\<close>

text \<open>The merging loop of Update, lines 195-197: every entry of \<open>values\<close> is assigned
  into \<open>result\<close>; the first assignment into a nil map panics.\<close>

definition assign_all :: "gomap \<Rightarrow> gomap \<Rightarrow> panic + gomap" where
  "assign_all result values =
     (if entries values = fmempty then Inr result
      else (case result of
              None \<Rightarrow> Inl NilMapAssignment
            | Some r \<Rightarrow> Inr (Some (r ++\<^sub>f entries values))))"

definition Update ::
  "externals \<Rightarrow> raftClient \<Rightarrow> raftClientThread \<Rightarrow> string \<Rightarrow> string \<Rightarrow> gomap \<Rightarrow> event list
     \<Rightarrow> error option outcome \<times> raftClientThread \<times> event list" where
  "Update ext cfg client table key values evs =
     (case Read ext cfg client table key [] evs of
        (Blocked, client', evs') \<Rightarrow> (Blocked, client', evs')
      | (Panicked p, client', evs') \<Rightarrow> (Panicked p, client', evs')
      | (Returned (result, Some err), client', evs') \<Rightarrow> (Returned (Some err), client', evs')
      | (Returned (result, None), client', evs') \<Rightarrow>
          (case assign_all result values of
             Inl p \<Rightarrow> (Panicked p, client', evs')
           | Inr merged \<Rightarrow> Insert ext cfg client' table key merged evs'))"

definition Delete ::
  "externals \<Rightarrow> raftClient \<Rightarrow> raftClientThread \<Rightarrow> string \<Rightarrow> string \<Rightarrow> event list
     \<Rightarrow> error option outcome \<times> raftClientThread \<times> event list" where
  "Delete ext cfg client table key evs =
     Insert ext cfg client table key (Some fmempty) evs"

subsection \<open>Conditions under which the claims are stated\<close>

text \<open>The signal channel holds no more than its capacity; a stretch of events is quiet
  when no response is among them.\<close>

definition chan_ok :: "raftClientThread \<Rightarrow> bool" where
  "chan_ok client = (length (timeoutCh client) \<le> timeoutCh_cap)"

definition quiet :: "event list \<Rightarrow> bool" where
  "quiet evs = list_all (\<lambda>e. \<not> is_Response e) evs"

text \<open>
  What Read and Insert require of a response, read off the record itself: the success
  flag is true, the kind is the response kind of the request, the key is the flat key
  and, for a Put, the echoed value is the encoded value.
\<close>

definition get_response_valid :: "externals \<Rightarrow> string \<Rightarrow> tla_value \<Rightarrow> bool" where
  "get_response_valid ext keyStr resp =
     (ApplyFunction resp (StringKey ''msuccess'') = Inr (TLABool True) \<and>
      ApplyFunction resp (StringKey ''mtype'') = Inr (kvs_ClientGetResponse ext) \<and>
      bind (ApplyFunction resp (StringKey ''mresponse''))
           (\<lambda>mresp. ApplyFunction mresp (StringKey ''key'')) = Inr (TLAString keyStr))"

definition put_response_valid :: "externals \<Rightarrow> string \<Rightarrow> tla_value \<Rightarrow> tla_value \<Rightarrow> bool" where
  "put_response_valid ext keyStr kv resp =
     (ApplyFunction resp (StringKey ''msuccess'') = Inr (TLABool True) \<and>
      ApplyFunction resp (StringKey ''mtype'') = Inr (kvs_ClientPutResponse ext) \<and>
      bind (ApplyFunction resp (StringKey ''mresponse''))
           (\<lambda>mresp. ApplyFunction mresp (StringKey ''key'')) = Inr (TLAString keyStr) \<and>
      bind (ApplyFunction resp (StringKey ''mresponse''))
           (\<lambda>mresp. ApplyFunction mresp (StringKey ''value'')) = Inr kv)"

text \<open>
  A response has the shape of a Get response when it has a boolean \<open>msuccess\<close>, an \<open>mtype\<close>
  and an \<open>mresponse\<close> with a string \<open>key\<close>; a Put response has an echoed \<open>value\<close> as well.
\<close>

definition get_response_shaped :: "tla_value \<Rightarrow> bool" where
  "get_response_shaped resp =
     ((case ApplyFunction resp (StringKey ''msuccess'') of
         Inr (TLABool b) \<Rightarrow> True | _ \<Rightarrow> False) \<and>
      (case ApplyFunction resp (StringKey ''mtype'') of Inr typ \<Rightarrow> True | _ \<Rightarrow> False) \<and>
      (case bind (ApplyFunction resp (StringKey ''mresponse''))
                 (\<lambda>mresp. ApplyFunction mresp (StringKey ''key'')) of
         Inr (TLAString k) \<Rightarrow> True | _ \<Rightarrow> False))"

definition put_response_shaped :: "tla_value \<Rightarrow> bool" where
  "put_response_shaped resp =
     (get_response_shaped resp \<and>
      (case bind (ApplyFunction resp (StringKey ''mresponse''))
                 (\<lambda>mresp. ApplyFunction mresp (StringKey ''value'')) of
         Inr v \<Rightarrow> True | _ \<Rightarrow> False))"

definition outcome_of :: "panic + 'a \<Rightarrow> 'a outcome" where
  "outcome_of x = (case x of Inl p \<Rightarrow> Panicked p | Inr r \<Rightarrow> Returned r)"

definition mk_response :: "bool \<Rightarrow> tla_value \<Rightarrow> string \<Rightarrow> tla_value \<Rightarrow> bool \<Rightarrow> tla_value" where
  "mk_response success typ keyStr v found =
     MakeTLARecord
       [(StringKey ''msuccess'', TLABool success),
        (StringKey ''mtype'', typ),
        (StringKey ''mresponse'',
           MakeTLARecord
             [(StringKey ''key'', TLAString keyStr),
              (StringKey ''value'', v),
              (StringKey ''ok'', TLABool found)])]"

text \<open>
  Concrete inputs. \<open>json_table\<close> tabulates \<open>json.Marshal\<close> on the three maps the examples
  marshal: the nil map, the empty map, and the map with the single field \<open>field0\<close> holding
  the byte \<open>v\<close> (a byte slice is written in base64).
\<close>

definition json_table :: "gomap \<Rightarrow> error + string" where
  \<open>json_table m =
     (case m of
        None \<Rightarrow> Inr ''null''
      | Some f \<Rightarrow>
          if f = fmupd ''field0'' ''v'' fmempty then Inr ''{"field0":"dg=="}''
          else if f = fmempty then Inr ''{}''
          else Inl (Errorf ''json: not tabulated''))\<close>

definition ext0 :: externals where
  "ext0 = \<lparr>kvs_Get = TLAString ''get'', kvs_Put = TLAString ''put'',
           kvs_ClientGetResponse = TLAString ''cgp'', kvs_ClientPutResponse = TLAString ''cpp'',
           json_Marshal = json_table\<rparr>"

definition cfg0 :: raftClient where
  "cfg0 = \<lparr>endpoints = [''s1:8000''], endpointMonitors = fmupd ''s1:8000'' ''s1:8001'' fmempty,
           clientReplyPoints = [''c1:9000''], requestTimeout = 1000000000, useInts = False,
           clientThreads = []\<rparr>"

definition client0 :: raftClientThread where
  "client0 = \<lparr>self = ''c1:9000'', inCh = [], timeoutCh = []\<rparr>"

definition cfg_full :: raftClient where
  "cfg_full = cfg0\<lparr>clientThreads := [client0]\<rparr>"

definition cfg_ints :: raftClient where
  "cfg_ints = cfg0\<lparr>useInts := True\<rparr>"

section \<open>Properties\<close>

subsection \<open>Auxiliary facts\<close>

lemma bind_simps [simp]: "bind (Inl p) f = Inl p" "bind (Inr v) f = f v"
  by (simp_all add: bind_def)

lemma fmlookup_string_record [simp]:
  "fmlookup (string_record m) (StringKey s) = map_option TLAString (fmlookup m s)"
  "fmlookup (string_record m) (NumberKey n) = None"
  "fmlookup (string_record m) (BoolKey b) = None"
  by (simp_all add: string_record.rep_eq)

lemma fmlookup_kept_fields:
  "fmlookup (kept_fields ff f) s =
     (if keeps ff s then (case fmlookup f (StringKey s) of Some (TLAString b) \<Rightarrow> Some b | _ \<Rightarrow> None)
      else None)"
  by (simp add: kept_fields.rep_eq)

lemma on_timeout_ok:
  "chan_ok client \<Longrightarrow> on_timeout client = Some (client\<lparr>timeoutCh := [TLA_TRUE]\<rparr>)"
  by (cases "timeoutCh client")
     (auto simp: chan_ok_def on_timeout_def chan_send_def clear_timeout_def timeoutCh_cap_def)

lemma chan_ok_signal_taken: "chan_ok client \<Longrightarrow> chan_ok (signal_taken client)"
  by (cases "timeoutCh client") (auto simp: chan_ok_def signal_taken_def clear_timeout_def)

lemma Read_wait_quiet:
  "quiet pre \<Longrightarrow> chan_ok client \<Longrightarrow>
   \<exists>client'. Read_wait ext cfg keyStr ff client (pre @ evs) = Read_wait ext cfg keyStr ff client' evs
      \<and> inCh client' = inCh client \<and> self client' = self client \<and> chan_ok client'"
proof (induction pre arbitrary: client)
  case Nil
  then show ?case by auto
next
  case (Cons e pre)
  show ?case
  proof (cases e)
    case (Response r)
    with Cons.prems show ?thesis by (simp add: quiet_def)
  next
    case Timeout
    let ?c = "client\<lparr>timeoutCh := [TLA_TRUE]\<rparr>"
    have ok: "chan_ok ?c" by (simp add: chan_ok_def timeoutCh_cap_def)
    from Cons.prems have q: "quiet pre" by (simp add: quiet_def)
    from Cons.IH [OF q ok] obtain c' where
      "Read_wait ext cfg keyStr ff ?c (pre @ evs) = Read_wait ext cfg keyStr ff c' evs"
      "inCh c' = inCh ?c" "self c' = self ?c" "chan_ok c'" by blast
    with Timeout Cons.prems show ?thesis
      by (auto simp: on_timeout_ok)
  next
    case SignalTaken
    let ?c = "signal_taken client"
    have ok: "chan_ok ?c" using Cons.prems by (simp add: chan_ok_signal_taken)
    from Cons.prems have q: "quiet pre" by (simp add: quiet_def)
    from Cons.IH [OF q ok] obtain c' where
      "Read_wait ext cfg keyStr ff ?c (pre @ evs) = Read_wait ext cfg keyStr ff c' evs"
      "inCh c' = inCh ?c" "self c' = self ?c" "chan_ok c'" by blast
    with SignalTaken show ?thesis
      by (auto simp: signal_taken_def)
  qed
qed

lemma Insert_wait_quiet:
  "quiet pre \<Longrightarrow> chan_ok client \<Longrightarrow>
   \<exists>client'. Insert_wait ext keyStr kv client (pre @ evs) = Insert_wait ext keyStr kv client' evs
      \<and> inCh client' = inCh client \<and> self client' = self client \<and> chan_ok client'"
proof (induction pre arbitrary: client)
  case Nil
  then show ?case by auto
next
  case (Cons e pre)
  show ?case
  proof (cases e)
    case (Response r)
    with Cons.prems show ?thesis by (simp add: quiet_def)
  next
    case Timeout
    let ?c = "client\<lparr>timeoutCh := [TLA_TRUE]\<rparr>"
    have ok: "chan_ok ?c" by (simp add: chan_ok_def timeoutCh_cap_def)
    from Cons.prems have q: "quiet pre" by (simp add: quiet_def)
    from Cons.IH [OF q ok] obtain c' where
      "Insert_wait ext keyStr kv ?c (pre @ evs) = Insert_wait ext keyStr kv c' evs"
      "inCh c' = inCh ?c" "self c' = self ?c" "chan_ok c'" by blast
    with Timeout Cons.prems show ?thesis
      by (auto simp: on_timeout_ok)
  next
    case SignalTaken
    let ?c = "signal_taken client"
    have ok: "chan_ok ?c" using Cons.prems by (simp add: chan_ok_signal_taken)
    from Cons.prems have q: "quiet pre" by (simp add: quiet_def)
    from Cons.IH [OF q ok] obtain c' where
      "Insert_wait ext keyStr kv ?c (pre @ evs) = Insert_wait ext keyStr kv c' evs"
      "inCh c' = inCh ?c" "self c' = self ?c" "chan_ok c'" by blast
    with SignalTaken show ?thesis
      by (auto simp: signal_taken_def)
  qed
qed

lemma Read_wait_inCh: "inCh (fst (snd (Read_wait ext cfg keyStr ff client evs))) = inCh client"
  by (induction ext cfg keyStr ff client evs rule: Read_wait.induct)
     (auto simp: on_timeout_def signal_taken_def split: sum.splits option.splits)

lemma Insert_wait_inCh: "inCh (fst (snd (Insert_wait ext keyStr kv client evs))) = inCh client"
  by (induction ext keyStr kv client evs rule: Insert_wait.induct)
     (auto simp: on_timeout_def signal_taken_def split: sum.splits option.splits)

lemma Read_prefix:
  assumes "quiet pre" "chan_ok client"
  shows "\<exists>client'. Read ext cfg client table key fs (pre @ Response resp # evs) =
            (outcome_of (Read_response ext cfg (table @ ''/'' @ key) (make_fieldFilter fs) resp),
             client', evs)
          \<and> inCh client' = inCh client @ [get_request ext (table @ ''/'' @ key)]
          \<and> self client' = self client \<and> chan_ok client'"
proof -
  let ?c = "client\<lparr>inCh := inCh client @ [get_request ext (table @ ''/'' @ key)]\<rparr>"
  have ok: "chan_ok ?c" using assms(2) by (simp add: chan_ok_def)
  from Read_wait_quiet [OF assms(1) ok] obtain c' where
    c': "Read_wait ext cfg (table @ ''/'' @ key) (make_fieldFilter fs) ?c (pre @ Response resp # evs)
           = Read_wait ext cfg (table @ ''/'' @ key) (make_fieldFilter fs) c' (Response resp # evs)"
        "inCh c' = inCh ?c" "self c' = self ?c" "chan_ok c'" by blast
  then show ?thesis
    by (auto simp: Read_def Let_def outcome_of_def split: sum.splits)
qed

lemma Insert_prefix:
  assumes "quiet pre" "chan_ok client" "kvFn ext cfg values = Inr kv"
  shows "\<exists>client'. Insert ext cfg client table key values (pre @ Response resp # evs) =
            (outcome_of (Insert_response ext (table @ ''/'' @ key) kv resp), client', evs)
          \<and> inCh client' = inCh client @ [put_request ext (table @ ''/'' @ key) kv]
          \<and> self client' = self client \<and> chan_ok client'"
proof -
  let ?c = "client\<lparr>inCh := inCh client @ [put_request ext (table @ ''/'' @ key) kv]\<rparr>"
  have ok: "chan_ok ?c" using assms(2) by (simp add: chan_ok_def)
  from Insert_wait_quiet [OF assms(1) ok] obtain c' where
    c': "Insert_wait ext (table @ ''/'' @ key) kv ?c (pre @ Response resp # evs)
           = Insert_wait ext (table @ ''/'' @ key) kv c' (Response resp # evs)"
        "inCh c' = inCh ?c" "self c' = self ?c" "chan_ok c'" by blast
  then show ?thesis using assms(3)
    by (auto simp: Insert_def Let_def outcome_of_def split: sum.splits)
qed

lemma outcome_of_simps [simp]:
  "outcome_of (Inl p) = Panicked p" "outcome_of (Inr r) = Returned r"
  by (simp_all add: outcome_of_def)

lemma bind_eq_Inr: "bind x f = Inr y \<longleftrightarrow> (\<exists>v. x = Inr v \<and> f v = Inr y)"
  by (cases x) simp_all

lemma bind_eq_Inl: "bind x f = Inl p \<longleftrightarrow> x = Inl p \<or> (\<exists>v. x = Inr v \<and> f v = Inl p)"
  by (cases x) auto

lemma assert_simps [simp]: "assert True = Inr ()" "assert False = Inl DataIntegrityFailed"
  by (simp_all add: assert_def)

lemma AsBool_eq_Inr: "AsBool v = Inr b \<longleftrightarrow> v = TLABool b"
  by (cases v) auto

lemma AsString_eq_Inr: "AsString v = Inr s \<longleftrightarrow> v = TLAString s"
  by (cases v) auto

lemma accessors_no_abort [simp]:
  "ApplyFunction v k \<noteq> Inl DataIntegrityFailed"
  "AsBool v \<noteq> Inl DataIntegrityFailed"
  "AsString v \<noteq> Inl DataIntegrityFailed"
  "AsFunction v \<noteq> Inl DataIntegrityFailed"
  by (cases v; simp split: option.splits)+

lemma Read_response_valid_no_abort:
  "get_response_valid ext keyStr resp \<Longrightarrow>
   Read_response ext cfg keyStr ff resp \<noteq> Inl DataIntegrityFailed"
  by (auto simp: get_response_valid_def Read_response_def bind_eq_Inr bind_eq_Inl
        AsBool_eq_Inr decode_loop_def split: if_splits tla_value.splits)

lemma Read_response_invalid_panics:
  assumes "\<not> get_response_valid ext keyStr resp"
  shows "\<exists>p. Read_response ext cfg keyStr ff resp = Inl p"
proof (cases "Read_response ext cfg keyStr ff resp")
  case (Inl p) then show ?thesis by blast
next
  case (Inr r)
  then have "get_response_valid ext keyStr resp"
    by (auto simp: get_response_valid_def Read_response_def bind_eq_Inr 
        AsBool_eq_Inr AsString_eq_Inr assert_def split: if_splits)
  with assms show ?thesis by simp
qed

lemma Read_response_shaped_invalid:
  assumes "\<not> get_response_valid ext keyStr resp" "get_response_shaped resp"
  shows "Read_response ext cfg keyStr ff resp = Inl DataIntegrityFailed"
  using assms
  by (auto simp: get_response_valid_def get_response_shaped_def Read_response_def bind_eq_Inr
        assert_def split: sum.splits tla_value.splits)

lemma Insert_response_valid:
  "put_response_valid ext keyStr kv resp \<Longrightarrow> Insert_response ext keyStr kv resp = Inr None"
  by (auto simp: put_response_valid_def Insert_response_def bind_eq_Inr)

lemma Insert_response_invalid_panics:
  assumes "\<not> put_response_valid ext keyStr kv resp"
  shows "\<exists>p. Insert_response ext keyStr kv resp = Inl p"
proof (cases "Insert_response ext keyStr kv resp")
  case (Inl p) then show ?thesis by blast
next
  case (Inr r)
  then have "put_response_valid ext keyStr kv resp"
    by (auto simp: put_response_valid_def Insert_response_def bind_eq_Inr 
        AsBool_eq_Inr AsString_eq_Inr assert_def split: if_splits)
  with assms show ?thesis by simp
qed

lemma Insert_response_shaped_invalid:
  assumes "\<not> put_response_valid ext keyStr kv resp" "put_response_shaped resp"
  shows "Insert_response ext keyStr kv resp = Inl DataIntegrityFailed"
  using assms
  by (auto simp: put_response_valid_def put_response_shaped_def get_response_shaped_def
        Insert_response_def bind_eq_Inr
        assert_def split: sum.splits tla_value.splits)

lemma mk_response_fields [simp]:
  "ApplyFunction (mk_response success typ keyStr v found) (StringKey ''msuccess'') = Inr (TLABool success)"
  "ApplyFunction (mk_response success typ keyStr v found) (StringKey ''mtype'') = Inr typ"
  "bind (ApplyFunction (mk_response success typ keyStr v found) (StringKey ''mresponse''))
        (\<lambda>mresp. ApplyFunction mresp (StringKey ''key'')) = Inr (TLAString keyStr)"
  "bind (ApplyFunction (mk_response success typ keyStr v found) (StringKey ''mresponse''))
        (\<lambda>mresp. ApplyFunction mresp (StringKey ''value'')) = Inr v"
  "bind (ApplyFunction (mk_response success typ keyStr v found) (StringKey ''mresponse''))
        (\<lambda>mresp. ApplyFunction mresp (StringKey ''ok'')) = Inr (TLABool found)"
  by (simp_all add: mk_response_def MakeTLARecord_def)

lemma fmupd_not_empty [simp]: "fmupd k v m \<noteq> fmempty" "fmempty \<noteq> fmupd k v m"
  by (metis fmempty_lookup fmupd_lookup option.distinct(1))+

lemma quiet_simps [simp]:
  "quiet []" "quiet (Timeout # evs) = quiet evs" "quiet (SignalTaken # evs) = quiet evs"
  "quiet (Response r # evs) = False"
  by (simp_all add: quiet_def)

lemma chan_ok_client0 [simp]: "chan_ok client0"
  by (simp add: chan_ok_def client0_def)

lemma kvFn_structured: "\<not> useInts cfg \<Longrightarrow> kvFn ext cfg values = Inr (TLAFunction (string_record (entries values)))"
  by (simp add: kvFn_def)

lemma Read_response_not_found:
  assumes "get_response_valid ext keyStr resp"
    and "bind (ApplyFunction resp (StringKey ''mresponse''))
           (\<lambda>mresp. ApplyFunction mresp (StringKey ''ok'')) = Inr (TLABool False)"
  shows "Read_response ext cfg keyStr ff resp
           = Inr (None, Some (Errorf (''key not found: '' @ keyStr)))"
  using assms
  by (auto simp: get_response_valid_def Read_response_def bind_eq_Inr)

lemma Read_response_found_no_error:
  assumes "get_response_valid ext keyStr resp"
    and "bind (ApplyFunction resp (StringKey ''mresponse''))
           (\<lambda>mresp. ApplyFunction mresp (StringKey ''ok'')) = Inr (TLABool True)"
    and "Read_response ext cfg keyStr ff resp = Inr (m, e)"
  shows "e = None \<and> m \<noteq> None"
  using assms
  by (auto simp: get_response_valid_def Read_response_def bind_eq_Inr split: if_splits)

lemma string_record_empty [simp]: "string_record fmempty = fmempty"
proof (rule fmap_ext)
  fix k show "fmlookup (string_record fmempty) k = fmlookup fmempty k"
    by (cases k) simp_all
qed

lemma put_request_fields [simp]:
  "ApplyFunction (put_request ext keyStr kv) (StringKey ''type'') = Inr (kvs_Put ext)"
  "ApplyFunction (put_request ext keyStr kv) (StringKey ''key'') = Inr (TLAString keyStr)"
  "ApplyFunction (put_request ext keyStr kv) (StringKey ''value'') = Inr kv"
  by (simp_all add: put_request_def MakeTLARecord_def)

lemma Insert_inCh:
  "inCh (fst (snd (Insert ext cfg client table key values evs)))
     = inCh client @ (case kvFn ext cfg values of
                        Inl p \<Rightarrow> []
                      | Inr kv \<Rightarrow> [put_request ext (table @ ''/'' @ key) kv])"
  by (simp add: Insert_def Insert_wait_inCh Let_def split: sum.splits)

lemma Read_inCh:
  "inCh (fst (snd (Read ext cfg client table key fs evs)))
     = inCh client @ [get_request ext (table @ ''/'' @ key)]"
  by (simp add: Read_def Read_wait_inCh Let_def)

lemma fmlookup_fieldFilter:
  "fmlookup (foldl (\<lambda>m field. fmupd field True m) m0 fs) s
     = (if s \<in> set fs then Some True else fmlookup m0 s)"
  by (induction fs arbitrary: m0) auto

lemma keeps_make_fieldFilter:
  "keeps (make_fieldFilter fs) s \<longleftrightarrow> fs = [] \<or> s \<in> set fs"
  by (auto simp: keeps_def make_fieldFilter_def fmlookup_fieldFilter)

lemma entry_ok_string_record: "fmpred (entry_ok ff) (string_record m)"
proof (rule fmpredI)
  fix k v assume "fmlookup (string_record m) k = Some v"
  then show "entry_ok ff k v"
    by (cases k) (auto simp: entry_ok_def)
qed

lemma kept_fields_string_record: "kept_fields ff (string_record m) = fmfilter (keeps ff) m"
proof (rule fmap_ext)
  fix s show "fmlookup (kept_fields ff (string_record m)) s = fmlookup (fmfilter (keeps ff) m) s"
    by (cases "fmlookup m s") (simp_all add: fmlookup_kept_fields)
qed

lemma fmfilter_keeps:
  "fmfilter (keeps (make_fieldFilter fs)) m = (if fs = [] then m else fmrestrict_set (set fs) m)"
  by (rule fmap_ext) (simp add: keeps_make_fieldFilter)

lemma decode_string_record:
  "decode_loop (string_record m) (make_fieldFilter fs)
     = Inr (if fs = [] then m else fmrestrict_set (set fs) m)"
  by (simp add: decode_loop_def entry_ok_string_record kept_fields_string_record fmfilter_keeps)

lemma Read_response_structured:
  assumes "\<not> useInts cfg"
    and "get_response_valid ext keyStr resp"
    and "bind (ApplyFunction resp (StringKey ''mresponse''))
           (\<lambda>mresp. ApplyFunction mresp (StringKey ''ok'')) = Inr (TLABool True)"
    and "bind (ApplyFunction resp (StringKey ''mresponse''))
           (\<lambda>mresp. ApplyFunction mresp (StringKey ''value''))
           = Inr (TLAFunction (string_record m))"
  shows "Read_response ext cfg keyStr (make_fieldFilter fs) resp
           = Inr (Some (if fs = [] then m else fmrestrict_set (set fs) m), None)"
  using assms
  by (auto simp: get_response_valid_def Read_response_def bind_eq_Inr decode_string_record)

lemma Read_response_ints:
  assumes "useInts cfg"
    and "get_response_valid ext keyStr resp"
    and "bind (ApplyFunction resp (StringKey ''mresponse''))
           (\<lambda>mresp. ApplyFunction mresp (StringKey ''ok'')) = Inr (TLABool True)"
  shows "Read_response ext cfg keyStr ff resp = Inr (Some fmempty, None)"
  using assms
  by (auto simp: get_response_valid_def Read_response_def bind_eq_Inr)

lemma Read_quiet_blocked:
  assumes "quiet pre" "chan_ok client"
  shows "\<exists>client'. Read ext cfg client table key fs pre = (Blocked, client', [])
          \<and> inCh client' = inCh client @ [get_request ext (table @ ''/'' @ key)]
          \<and> chan_ok client'"
proof -
  let ?c = "client\<lparr>inCh := inCh client @ [get_request ext (table @ ''/'' @ key)]\<rparr>"
  have ok: "chan_ok ?c" using assms(2) by (simp add: chan_ok_def)
  from Read_wait_quiet [OF assms(1) ok, of ext cfg "table @ ''/'' @ key" "make_fieldFilter fs" "[]"]
  show ?thesis by (auto simp: Read_def Let_def)
qed

lemma Read_quiet_Timeout:
  assumes "quiet pre" "chan_ok client"
  shows "timeoutCh (fst (snd (Read ext cfg client table key fs (pre @ [Timeout])))) = [TLA_TRUE]"
proof -
  let ?c = "client\<lparr>inCh := inCh client @ [get_request ext (table @ ''/'' @ key)]\<rparr>"
  have ok: "chan_ok ?c" using assms(2) by (simp add: chan_ok_def)
  from Read_wait_quiet [OF assms(1) ok, of ext cfg "table @ ''/'' @ key" "make_fieldFilter fs"
      "[Timeout]"]
  show ?thesis by (auto simp: Read_def Let_def on_timeout_ok)
qed

lemma Insert_quiet_blocked:
  assumes "quiet pre" "chan_ok client" "kvFn ext cfg values = Inr kv"
  shows "\<exists>client'. Insert ext cfg client table key values pre = (Blocked, client', [])
          \<and> inCh client' = inCh client @ [put_request ext (table @ ''/'' @ key) kv]
          \<and> chan_ok client'"
proof -
  let ?c = "client\<lparr>inCh := inCh client @ [put_request ext (table @ ''/'' @ key) kv]\<rparr>"
  have ok: "chan_ok ?c" using assms(2) by (simp add: chan_ok_def)
  from Insert_wait_quiet [OF assms(1) ok, of ext "table @ ''/'' @ key" kv "[]"] assms(3)
  show ?thesis by (auto simp: Insert_def Let_def)
qed

lemma Insert_quiet_Timeout:
  assumes "quiet pre" "chan_ok client" "kvFn ext cfg values = Inr kv"
  shows "timeoutCh (fst (snd (Insert ext cfg client table key values (pre @ [Timeout]))))
           = [TLA_TRUE]"
proof -
  let ?c = "client\<lparr>inCh := inCh client @ [put_request ext (table @ ''/'' @ key) kv]\<rparr>"
  have ok: "chan_ok ?c" using assms(2) by (simp add: chan_ok_def)
  from Insert_wait_quiet [OF assms(1) ok, of ext "table @ ''/'' @ key" kv "[Timeout]"] assms(3)
  show ?thesis by (auto simp: Insert_def Let_def on_timeout_ok)
qed

lemma Read_first_response:
  "fst (Read ext cfg client table key fs (Response resp # evs))
     = outcome_of (Read_response ext cfg (table @ ''/'' @ key) (make_fieldFilter fs) resp)"
  by (simp add: Read_def Let_def outcome_of_def split: sum.splits)

lemma Insert_first_response:
  "kvFn ext cfg values = Inr kv \<Longrightarrow>
   fst (Insert ext cfg client table key values (Response resp # evs))
     = outcome_of (Insert_response ext (table @ ''/'' @ key) kv resp)"
  by (simp add: Insert_def Let_def outcome_of_def split: sum.splits)

lemma chan_ok_on_timeout: "on_timeout c = Some c' \<Longrightarrow> chan_ok c'"
  by (auto simp: on_timeout_def chan_send_def chan_ok_def split: if_splits)

lemma Read_wait_chan_ok:
  "chan_ok client \<Longrightarrow> chan_ok (fst (snd (Read_wait ext cfg keyStr ff client evs)))"
  by (induction ext cfg keyStr ff client evs rule: Read_wait.induct)
     (auto simp: chan_ok_on_timeout chan_ok_signal_taken split: sum.splits option.splits)

lemma Insert_wait_chan_ok:
  "chan_ok client \<Longrightarrow> chan_ok (fst (snd (Insert_wait ext keyStr kv client evs)))"
  by (induction ext keyStr kv client evs rule: Insert_wait.induct)
     (auto simp: chan_ok_on_timeout chan_ok_signal_taken split: sum.splits option.splits)

lemma chan_ok_inCh_update [simp]: "chan_ok (client\<lparr>inCh := reqs\<rparr>) = chan_ok client"
  by (simp add: chan_ok_def)

lemma Read_chan_ok:
  "chan_ok client \<Longrightarrow> chan_ok (fst (snd (Read ext cfg client table key fs evs)))"
  by (simp add: Read_def Let_def Read_wait_chan_ok)

lemma Insert_chan_ok:
  "chan_ok client \<Longrightarrow> chan_ok (fst (snd (Insert ext cfg client table key values evs)))"
  by (simp add: Insert_def Let_def Insert_wait_chan_ok split: sum.splits)

lemma Update_found:
  assumes "fst (Read ext cfg client table key [] evs) = Returned (Some prior, None)"
  shows "Update ext cfg client table key values evs
       = Insert ext cfg (fst (snd (Read ext cfg client table key [] evs))) table key
           (Some (prior ++\<^sub>f entries values)) (snd (snd (Read ext cfg client table key [] evs)))"
  using assms
  by (cases "Read ext cfg client table key [] evs")
     (auto simp: Update_def assign_all_def)

lemma Update_chan_ok:
  "chan_ok client \<Longrightarrow> chan_ok (fst (snd (Update ext cfg client table key values evs)))"
proof -
  assume c: "chan_ok client"
  obtain out c1 evs1 where r: "Read ext cfg client table key [] evs = (out, c1, evs1)"
    by (cases "Read ext cfg client table key [] evs") auto
  from Read_chan_ok [OF c, of ext cfg table key "[]" evs] r have c1: "chan_ok c1" by simp
  show ?thesis
    using c1 Insert_chan_ok [OF c1]
    by (auto simp: Update_def r split: outcome.splits option.splits sum.splits prod.splits)
qed

lemma fmlookup_merge:
  "fmlookup (prior ++\<^sub>f vs) f = (case fmlookup vs f of Some v \<Rightarrow> Some v | None \<Rightarrow> fmlookup prior f)"
  by (cases "fmlookup vs f") (auto dest: fmdom_notD intro: fmdomI)

section \<open>The claims\<close>

subsection \<open>C3: validation of a response\<close>

text \<open>
  Claim C3. A response taken from \<open>outCh\<close> by Read or Insert, after any number of timeouts,
  is checked against the outstanding request: the success flag is true, the kind is
  ClientGetResponse for Read and ClientPutResponse for Insert, the key is the flat key
  \<open>table/key\<close>, and for Insert the echoed value equals the encoded value \<open>kvFn\<close>. When all
  of this holds the call does not end in the panic of \<open>assert\<close> (Insert returns nil). When
  it does not hold the call panics; and if the response has the fields of a response, the
  panic is the one of \<open>assert\<close>, "data integrity failed!".
\<close>

theorem response_validation:
  assumes "quiet pre" and "chan_ok client" and "kvFn ext cfg values = Inr kv"
  shows
    "(get_response_valid ext (table @ ''/'' @ key) resp \<longrightarrow>
        fst (Read ext cfg client table key fs (pre @ Response resp # evs))
          \<noteq> Panicked DataIntegrityFailed)
   \<and> (\<not> get_response_valid ext (table @ ''/'' @ key) resp \<longrightarrow>
        (\<exists>p. fst (Read ext cfg client table key fs (pre @ Response resp # evs)) = Panicked p))
   \<and> (\<not> get_response_valid ext (table @ ''/'' @ key) resp \<and> get_response_shaped resp \<longrightarrow>
        fst (Read ext cfg client table key fs (pre @ Response resp # evs))
          = Panicked DataIntegrityFailed)
   \<and> (put_response_valid ext (table @ ''/'' @ key) kv resp \<longrightarrow>
        fst (Insert ext cfg client table key values (pre @ Response resp # evs))
          = Returned None)
   \<and> (\<not> put_response_valid ext (table @ ''/'' @ key) kv resp \<longrightarrow>
        (\<exists>p. fst (Insert ext cfg client table key values (pre @ Response resp # evs))
          = Panicked p))
   \<and> (\<not> put_response_valid ext (table @ ''/'' @ key) kv resp \<and> put_response_shaped resp \<longrightarrow>
        fst (Insert ext cfg client table key values (pre @ Response resp # evs))
          = Panicked DataIntegrityFailed)"
proof -
  let ?k = "table @ ''/'' @ key"
  from Read_prefix [OF assms(1,2)] obtain c where
    r: "Read ext cfg client table key fs (pre @ Response resp # evs) =
          (outcome_of (Read_response ext cfg ?k (make_fieldFilter fs) resp), c, evs)"
    by blast
  from Insert_prefix [OF assms] obtain c' where
    i: "Insert ext cfg client table key values (pre @ Response resp # evs) =
          (outcome_of (Insert_response ext ?k kv resp), c', evs)"
    by blast
  have r1: "get_response_valid ext ?k resp \<longrightarrow>
        fst (Read ext cfg client table key fs (pre @ Response resp # evs))
          \<noteq> Panicked DataIntegrityFailed"
    using Read_response_valid_no_abort [of ext ?k resp cfg "make_fieldFilter fs"]
    by (cases "Read_response ext cfg ?k (make_fieldFilter fs) resp") (auto simp: r)
  have r2: "\<not> get_response_valid ext ?k resp \<longrightarrow>
        (\<exists>p. fst (Read ext cfg client table key fs (pre @ Response resp # evs)) = Panicked p)"
    using Read_response_invalid_panics [of ext ?k resp cfg "make_fieldFilter fs"]
    by (auto simp: r)
  have r3: "\<not> get_response_valid ext ?k resp \<and> get_response_shaped resp \<longrightarrow>
        fst (Read ext cfg client table key fs (pre @ Response resp # evs))
          = Panicked DataIntegrityFailed"
    using Read_response_shaped_invalid [of ext ?k resp cfg "make_fieldFilter fs"]
    by (auto simp: r)
  have i1: "put_response_valid ext ?k kv resp \<longrightarrow>
        fst (Insert ext cfg client table key values (pre @ Response resp # evs)) = Returned None"
    by (auto simp: i Insert_response_valid)
  have i2: "\<not> put_response_valid ext ?k kv resp \<longrightarrow>
        (\<exists>p. fst (Insert ext cfg client table key values (pre @ Response resp # evs))
           = Panicked p)"
    using Insert_response_invalid_panics [of ext ?k kv resp]
    by (auto simp: i)
  have i3: "\<not> put_response_valid ext ?k kv resp \<and> put_response_shaped resp \<longrightarrow>
        fst (Insert ext cfg client table key values (pre @ Response resp # evs))
          = Panicked DataIntegrityFailed"
    using Insert_response_shaped_invalid [of ext ?k kv resp]
    by (auto simp: i)
  from r1 r2 r3 i1 i2 i3 show ?thesis by blast
qed

theorem response_validation_witness:
  "quiet [Timeout, SignalTaken, Timeout] \<and> chan_ok client0
   \<and> kvFn ext0 cfg0 (Some fmempty) = Inr (TLAFunction (string_record fmempty))
   \<and> get_response_valid ext0 (''t'' @ ''/'' @ ''k'')
        (mk_response True (TLAString ''cgp'') ''t/k'' (TLAFunction (string_record fmempty)) True)
   \<and> fst (Read ext0 cfg0 client0 ''t'' ''k'' []
        ([Timeout, SignalTaken, Timeout] @ Response
          (mk_response True (TLAString ''cgp'') ''t/k'' (TLAFunction (string_record fmempty)) True) # []))
       \<noteq> Panicked DataIntegrityFailed
   \<and> \<not> put_response_valid ext0 (''t'' @ ''/'' @ ''k'') (TLAFunction (string_record fmempty))
        (mk_response True (TLAString ''cgp'') ''t/k'' (TLAFunction (string_record fmempty)) True)
   \<and> put_response_shaped
        (mk_response True (TLAString ''cgp'') ''t/k'' (TLAFunction (string_record fmempty)) True)
   \<and> fst (Insert ext0 cfg0 client0 ''t'' ''k'' (Some fmempty)
        ([Timeout, SignalTaken, Timeout] @ Response
          (mk_response True (TLAString ''cgp'') ''t/k'' (TLAFunction (string_record fmempty)) True) # []))
       = Panicked DataIntegrityFailed"
proof -
  let ?r = "mk_response True (TLAString ''cgp'') ''t/k'' (TLAFunction (string_record fmempty)) True"
  have q: "quiet [Timeout, SignalTaken, Timeout]" by simp
  have c: "chan_ok client0" by simp
  have k: "kvFn ext0 cfg0 (Some fmempty) = Inr (TLAFunction (string_record fmempty))"
    by (simp add: kvFn_def cfg0_def entries_def)
  have g: "get_response_valid ext0 (''t'' @ ''/'' @ ''k'') ?r"
    by (simp add: get_response_valid_def ext0_def)
  have p: "\<not> put_response_valid ext0 (''t'' @ ''/'' @ ''k'') (TLAFunction (string_record fmempty)) ?r"
    by (simp add: put_response_valid_def ext0_def)
  have s: "put_response_shaped ?r"
    by (simp add: put_response_shaped_def get_response_shaped_def)
  from response_validation [OF q c k, of "''t''" "''k''" ?r "[]" "[]"] q c k g p s
  show ?thesis by blast
qed

subsection \<open>C4: a key that is not found\<close>

text \<open>
  Claim C4. When the Get response Read receives is valid (success, kind, key) and its
  presence flag \<open>ok\<close> is false, Read returns the nil map and the error "key not found:
  table/key": it returns, it does not panic. When the flag is true, whatever Read returns
  carries no error.
\<close>

theorem Read_key_not_found:
  assumes "quiet pre" and "chan_ok client"
    and "get_response_valid ext (table @ ''/'' @ key) resp"
    and "bind (ApplyFunction resp (StringKey ''mresponse''))
           (\<lambda>mresp. ApplyFunction mresp (StringKey ''ok'')) = Inr (TLABool found)"
  shows "(\<not> found \<longrightarrow>
            fst (Read ext cfg client table key fs (pre @ Response resp # evs))
              = Returned (None, Some (Errorf (''key not found: '' @ table @ ''/'' @ key))))
       \<and> (found \<longrightarrow>
            (\<forall>m e. fst (Read ext cfg client table key fs (pre @ Response resp # evs))
                      = Returned (m, e) \<longrightarrow> e = None))"
proof -
  let ?k = "table @ ''/'' @ key"
  from Read_prefix [OF assms(1,2)] obtain c where
    r: "Read ext cfg client table key fs (pre @ Response resp # evs) =
          (outcome_of (Read_response ext cfg ?k (make_fieldFilter fs) resp), c, evs)"
    by blast
  have a: "\<not> found \<longrightarrow>
            fst (Read ext cfg client table key fs (pre @ Response resp # evs))
              = Returned (None, Some (Errorf (''key not found: '' @ ?k)))"
    using Read_response_not_found [OF assms(3), of cfg "make_fieldFilter fs"] assms(4)
    by (auto simp: r)
  have b: "found \<longrightarrow>
            (\<forall>m e. fst (Read ext cfg client table key fs (pre @ Response resp # evs))
                      = Returned (m, e) \<longrightarrow> e = None)"
    using Read_response_found_no_error [OF assms(3), of cfg "make_fieldFilter fs"] assms(4)
    by (cases "Read_response ext cfg ?k (make_fieldFilter fs) resp") (auto simp: r)
  from a b show ?thesis by blast
qed

theorem Read_key_not_found_witness:
  "quiet [Timeout] \<and> chan_ok client0
   \<and> get_response_valid ext0 (''usertable'' @ ''/'' @ ''user1'')
        (mk_response True (TLAString ''cgp'') ''usertable/user1'' (TLAString []) False)
   \<and> fst (Read ext0 cfg0 client0 ''usertable'' ''user1'' [''field0'']
        ([Timeout] @ Response
          (mk_response True (TLAString ''cgp'') ''usertable/user1'' (TLAString []) False) # []))
       = Returned (None, Some (Errorf (''key not found: '' @ ''usertable'' @ ''/'' @ ''user1'')))"
proof -
  let ?r = "mk_response True (TLAString ''cgp'') ''usertable/user1'' (TLAString []) False"
  have q: "quiet [Timeout]" by simp
  have c: "chan_ok client0" by simp
  have g: "get_response_valid ext0 (''usertable'' @ ''/'' @ ''user1'') ?r"
    by (simp add: get_response_valid_def ext0_def)
  have f: "bind (ApplyFunction ?r (StringKey ''mresponse''))
           (\<lambda>mresp. ApplyFunction mresp (StringKey ''ok'')) = Inr (TLABool False)"
    by simp
  from Read_key_not_found [OF q c g f, of cfg0 "[''field0'']" "[]"] q c g
  show ?thesis by blast
qed

subsection \<open>C10: Update of a key that is not found\<close>

text \<open>
  Claim C10. When the Get response that Update's Read receives is valid and reports the
  key absent, Update returns the "key not found" error of that Read; the only request it
  has sent is the Get, so no Put is sent, and the events after the response are left
  unread.
\<close>

theorem Update_key_not_found:
  assumes "quiet pre" and "chan_ok client"
    and "get_response_valid ext (table @ ''/'' @ key) resp"
    and "bind (ApplyFunction resp (StringKey ''mresponse''))
           (\<lambda>mresp. ApplyFunction mresp (StringKey ''ok'')) = Inr (TLABool False)"
  shows "fst (Update ext cfg client table key values (pre @ Response resp # evs))
           = Returned (Some (Errorf (''key not found: '' @ table @ ''/'' @ key)))
       \<and> inCh (fst (snd (Update ext cfg client table key values (pre @ Response resp # evs))))
           = inCh client @ [get_request ext (table @ ''/'' @ key)]
       \<and> snd (snd (Update ext cfg client table key values (pre @ Response resp # evs))) = evs"
proof -
  let ?k = "table @ ''/'' @ key"
  from Read_prefix [OF assms(1,2)] obtain c where
    r: "Read ext cfg client table key [] (pre @ Response resp # evs) =
          (outcome_of (Read_response ext cfg ?k (make_fieldFilter []) resp), c, evs)"
    and c: "inCh c = inCh client @ [get_request ext ?k]"
    by blast
  have "Read_response ext cfg ?k (make_fieldFilter []) resp
          = Inr (None, Some (Errorf (''key not found: '' @ ?k)))"
    by (rule Read_response_not_found [OF assms(3,4)])
  with r c show ?thesis
    by (simp add: Update_def)
qed

theorem Update_key_not_found_witness:
  "quiet [] \<and> chan_ok client0
   \<and> get_response_valid ext0 (''usertable'' @ ''/'' @ ''user1'')
        (mk_response True (TLAString ''cgp'') ''usertable/user1'' (TLAString []) False)
   \<and> fst (Update ext0 cfg0 client0 ''usertable'' ''user1'' (Some (fmupd ''field0'' ''v'' fmempty))
        ([] @ Response
          (mk_response True (TLAString ''cgp'') ''usertable/user1'' (TLAString []) False) # []))
       = Returned (Some (Errorf (''key not found: '' @ ''usertable'' @ ''/'' @ ''user1'')))
   \<and> inCh (fst (snd (Update ext0 cfg0 client0 ''usertable'' ''user1''
        (Some (fmupd ''field0'' ''v'' fmempty))
        ([] @ Response
          (mk_response True (TLAString ''cgp'') ''usertable/user1'' (TLAString []) False) # []))))
       = inCh client0 @ [get_request ext0 (''usertable'' @ ''/'' @ ''user1'')]"
proof -
  let ?r = "mk_response True (TLAString ''cgp'') ''usertable/user1'' (TLAString []) False"
  have q: "quiet []" by simp
  have c: "chan_ok client0" by simp
  have g: "get_response_valid ext0 (''usertable'' @ ''/'' @ ''user1'') ?r"
    by (simp add: get_response_valid_def ext0_def)
  have f: "bind (ApplyFunction ?r (StringKey ''mresponse''))
           (\<lambda>mresp. ApplyFunction mresp (StringKey ''ok'')) = Inr (TLABool False)"
    by simp
  from Update_key_not_found [OF q c g f, of cfg0 "Some (fmupd ''field0'' ''v'' fmempty)" "[]"] q c g
  show ?thesis by blast
qed

subsection \<open>C7: Scan\<close>

text \<open>
  Claim C7. For all arguments Scan returns a nil result and the error "pgo-raftkv does not
  implement key scan"; the thread is unchanged, so nothing is sent on its request channel,
  and no event is read.
\<close>

theorem Scan_not_implemented:
  "Scan ext cfg client table startKey count fs evs
     = (Returned (None, Some (Errorf ''pgo-raftkv does not implement key scan'')), client, evs)
   \<and> inCh (fst (snd (Scan ext cfg client table startKey count fs evs))) = inCh client"
  by (simp add: Scan_def)

subsection \<open>C5: Delete\<close>

text \<open>
  Claim C5. Delete(table, key) is Insert(table, key, empty map): same result, same thread
  state, same events read. The one request it sends is a Put request (type
  \<open>raftkvs.Put\<close>) for the flat key \<open>table/key\<close> carrying the encoding of the empty map,
  which in structured mode is the empty record; no request of another type is sent.
\<close>

theorem Delete_is_Insert_empty:
  "Delete ext cfg client table key evs = Insert ext cfg client table key (Some fmempty) evs
   \<and> inCh (fst (snd (Delete ext cfg client table key evs)))
       = inCh client @ (case kvFn ext cfg (Some fmempty) of
                          Inl p \<Rightarrow> []
                        | Inr kv \<Rightarrow> [put_request ext (table @ ''/'' @ key) kv])
   \<and> (\<forall>kv. ApplyFunction (put_request ext (table @ ''/'' @ key) kv) (StringKey ''type'')
              = Inr (kvs_Put ext)
          \<and> ApplyFunction (put_request ext (table @ ''/'' @ key) kv) (StringKey ''key'')
              = Inr (TLAString (table @ ''/'' @ key))
          \<and> ApplyFunction (put_request ext (table @ ''/'' @ key) kv) (StringKey ''value'')
              = Inr kv)
   \<and> (\<not> useInts cfg \<longrightarrow> kvFn ext cfg (Some fmempty) = Inr (TLAFunction fmempty))"
  by (simp add: Delete_def Insert_inCh kvFn_def entries_def)

theorem Delete_is_Insert_empty_witness:
  "\<not> useInts cfg0 \<and> kvFn ext0 cfg0 (Some fmempty) = Inr (TLAFunction fmempty)
   \<and> Delete ext0 cfg0 client0 ''usertable'' ''user1'' []
       = Insert ext0 cfg0 client0 ''usertable'' ''user1'' (Some fmempty) []"
  using Delete_is_Insert_empty [of ext0 cfg0 client0 "''usertable''" "''user1''" "[]"]
  by (simp add: cfg0_def)

subsection \<open>C8: InitThread\<close>

text \<open>
  Claim C8, as stated, fails: with \<open>threadCount\<close> equal to the length of the reply-address
  pool InitThread still panics when as many threads as \<open>threadCount\<close> are registered
  already ("too many client threads!").
\<close>

theorem InitThread_iff_counterexample:
  "1 = int (length (clientReplyPoints cfg_full))
   \<and> fst (InitThread cfg_full 0 1) = Panicked TooManyClientThreads"
  by (simp add: cfg_full_def cfg0_def InitThread_def Let_def)

text \<open>
  Claim C8, amended. InitThread panics with the reply-address configuration error if and
  only if \<open>threadCount\<close> differs from the length of \<open>clientReplyPoints\<close>. When they are
  equal, \<open>threadIdx\<close> is an index into the pool and fewer than \<open>threadCount\<close> threads are
  registered, InitThread returns a thread bound to \<open>clientReplyPoints[threadIdx]\<close>, with
  empty channels, and registers it as the last client thread. When they are equal,
  \<open>threadIdx\<close> is an index into the pool and \<open>threadCount\<close> threads or more are registered
  already, InitThread panics with "too many client threads!".
\<close>

theorem InitThread_thread_count:
  "(fst (InitThread cfg threadIdx threadCount) = Panicked ReplyPointsMismatch
      \<longleftrightarrow> threadCount \<noteq> int (length (clientReplyPoints cfg)))
   \<and> (threadCount = int (length (clientReplyPoints cfg)) \<and> 0 \<le> threadIdx
        \<and> threadIdx < threadCount \<and> int (length (clientThreads cfg)) < threadCount \<longrightarrow>
        InitThread cfg threadIdx threadCount
          = (Returned \<lparr>self = clientReplyPoints cfg ! nat threadIdx, inCh = [], timeoutCh = []\<rparr>,
             cfg\<lparr>clientThreads := clientThreads cfg
                @ [\<lparr>self = clientReplyPoints cfg ! nat threadIdx, inCh = [], timeoutCh = []\<rparr>]\<rparr>))
   \<and> (threadCount = int (length (clientReplyPoints cfg)) \<and> 0 \<le> threadIdx
        \<and> threadIdx < threadCount \<and> threadCount \<le> int (length (clientThreads cfg)) \<longrightarrow>
        fst (InitThread cfg threadIdx threadCount) = Panicked TooManyClientThreads)"
  by (auto simp: InitThread_def Let_def)

theorem InitThread_thread_count_witness:
  "1 = int (length (clientReplyPoints cfg0)) \<and> (0::int) \<le> 0 \<and> (0::int) < 1
   \<and> int (length (clientThreads cfg0)) < 1
   \<and> InitThread cfg0 0 1
        = (Returned \<lparr>self = clientReplyPoints cfg0 ! nat 0, inCh = [], timeoutCh = []\<rparr>,
           cfg0\<lparr>clientThreads := clientThreads cfg0
              @ [\<lparr>self = clientReplyPoints cfg0 ! nat 0, inCh = [], timeoutCh = []\<rparr>]\<rparr>)
   \<and> fst (InitThread cfg0 0 2) = Panicked ReplyPointsMismatch"
proof -
  have h: "1 = int (length (clientReplyPoints cfg0)) \<and> (0::int) \<le> 0 \<and> (0::int) < 1
   \<and> int (length (clientThreads cfg0)) < 1"
    by (simp add: cfg0_def)
  have n: "(2::int) \<noteq> int (length (clientReplyPoints cfg0))"
    by (simp add: cfg0_def)
  from InitThread_thread_count [of cfg0 0 1] InitThread_thread_count [of cfg0 0 2] h n
  show ?thesis by blast
qed

subsection \<open>C2: round trip of the structured codec\<close>

text \<open>
  Claim C2. In structured mode (\<open>useInts\<close> false) the value that Insert encodes for a field
  map is the record of its fields, and decoding that record with the filter made from the
  field list \<open>fs\<close> gives the field map restricted to the fields of \<open>fs\<close>, and the whole field
  map when \<open>fs\<close> is empty or nil. So a Read whose valid Get response reports the key found
  and carries the encoded value returns exactly that map, and no error.
\<close>

theorem structured_round_trip:
  assumes "\<not> useInts cfg"
  shows "kvFn ext cfg values = Inr (TLAFunction (string_record (entries values)))
       \<and> bind (kvFn ext cfg values)
            (\<lambda>kv. bind (AsFunction kv) (\<lambda>f. decode_loop f (make_fieldFilter fs)))
           = Inr (if fs = [] then entries values else fmrestrict_set (set fs) (entries values))
       \<and> (quiet pre \<and> chan_ok client
            \<and> get_response_valid ext (table @ ''/'' @ key) resp
            \<and> bind (ApplyFunction resp (StringKey ''mresponse''))
                 (\<lambda>mresp. ApplyFunction mresp (StringKey ''ok'')) = Inr (TLABool True)
            \<and> bind (ApplyFunction resp (StringKey ''mresponse''))
                 (\<lambda>mresp. ApplyFunction mresp (StringKey ''value'')) = kvFn ext cfg values
          \<longrightarrow> fst (Read ext cfg client table key fs (pre @ Response resp # evs))
                = Returned (Some (if fs = [] then entries values
                                  else fmrestrict_set (set fs) (entries values)), None))"
proof -
  let ?k = "table @ ''/'' @ key"
  have kv: "kvFn ext cfg values = Inr (TLAFunction (string_record (entries values)))"
    using assms by (simp add: kvFn_def)
  have dec: "bind (kvFn ext cfg values)
            (\<lambda>kv. bind (AsFunction kv) (\<lambda>f. decode_loop f (make_fieldFilter fs)))
           = Inr (if fs = [] then entries values else fmrestrict_set (set fs) (entries values))"
    by (simp add: kv decode_string_record)
  have rd: "fst (Read ext cfg client table key fs (pre @ Response resp # evs))
                = Returned (Some (if fs = [] then entries values
                                  else fmrestrict_set (set fs) (entries values)), None)"
    if q: "quiet pre" and c: "chan_ok client"
      and g: "get_response_valid ext ?k resp"
      and f: "bind (ApplyFunction resp (StringKey ''mresponse''))
                 (\<lambda>mresp. ApplyFunction mresp (StringKey ''ok'')) = Inr (TLABool True)"
      and v: "bind (ApplyFunction resp (StringKey ''mresponse''))
                 (\<lambda>mresp. ApplyFunction mresp (StringKey ''value'')) = kvFn ext cfg values"
  proof -
    from Read_prefix [OF q c] obtain c' where
      r: "Read ext cfg client table key fs (pre @ Response resp # evs) =
            (outcome_of (Read_response ext cfg ?k (make_fieldFilter fs) resp), c', evs)"
      by blast
    from v kv have v': "bind (ApplyFunction resp (StringKey ''mresponse''))
                 (\<lambda>mresp. ApplyFunction mresp (StringKey ''value''))
                 = Inr (TLAFunction (string_record (entries values)))" by simp
    show ?thesis
      using Read_response_structured [OF assms g f v', of fs] by (simp add: r)
  qed
  from kv dec rd show ?thesis by blast
qed

theorem structured_round_trip_witness:
  "\<not> useInts cfg0 \<and> quiet [Timeout] \<and> chan_ok client0
   \<and> get_response_valid ext0 (''usertable'' @ ''/'' @ ''user1'')
        (mk_response True (TLAString ''cgp'') ''usertable/user1''
           (TLAFunction (string_record
              (entries (Some (fmupd ''field0'' ''a'' (fmupd ''field1'' ''b'' fmempty)))))) True)
   \<and> fst (Read ext0 cfg0 client0 ''usertable'' ''user1'' [''field1'', ''field7'']
        ([Timeout] @ Response
          (mk_response True (TLAString ''cgp'') ''usertable/user1''
             (TLAFunction (string_record
                (entries (Some (fmupd ''field0'' ''a'' (fmupd ''field1'' ''b'' fmempty)))))) True)
          # []))
       = Returned (Some (fmupd ''field1'' ''b'' fmempty), None)"
proof -
  let ?m = "Some (fmupd ''field0'' ''a'' (fmupd ''field1'' ''b'' fmempty))"
  let ?r = "mk_response True (TLAString ''cgp'') ''usertable/user1''
             (TLAFunction (string_record (entries ?m))) True"
  have u: "\<not> useInts cfg0" by (simp add: cfg0_def)
  have q: "quiet [Timeout]" by simp
  have c: "chan_ok client0" by simp
  have g: "get_response_valid ext0 (''usertable'' @ ''/'' @ ''user1'') ?r"
    by (simp add: get_response_valid_def ext0_def)
  have f: "bind (ApplyFunction ?r (StringKey ''mresponse''))
           (\<lambda>mresp. ApplyFunction mresp (StringKey ''ok'')) = Inr (TLABool True)"
    by simp
  have v: "bind (ApplyFunction ?r (StringKey ''mresponse''))
           (\<lambda>mresp. ApplyFunction mresp (StringKey ''value'')) = kvFn ext0 cfg0 ?m"
    using u by (simp add: kvFn_def)
  have e: "fmrestrict_set {''field1'', ''field7''}
             (fmupd ''field0'' ''a'' (fmupd ''field1'' ''b'' fmempty))
           = (fmupd ''field1'' ''b'' fmempty :: fields)"
    by (rule fmap_ext) auto
  from structured_round_trip [OF u, of ext0 ?m "[''field1'', ''field7'']" "[Timeout]" client0
      "''usertable''" "''user1''" ?r "[]"] u q c g f v
  show ?thesis by (simp add: entries_def e)
qed

subsection \<open>C9: integer-size mode\<close>

text \<open>
  Claim C9. In integer-size mode (\<open>useInts\<close> true), when \<open>json.Marshal\<close> of the field map
  gives the bytes \<open>valuesBytes\<close>, the value Insert encodes, and sends in its Put request,
  is the decimal string of the number of those bytes, whatever the fields hold. A Read
  that receives a valid Get response reporting the key found returns an empty, non-nil
  field map and no error, whatever the response carries as value.
\<close>

theorem integer_size_mode:
  assumes "useInts cfg" and "json_Marshal ext values = Inr valuesBytes"
  shows "kvFn ext cfg values = Inr (TLAString (Sprintf_d (length valuesBytes)))
       \<and> inCh (fst (snd (Insert ext cfg client table key values evs)))
           = inCh client @ [put_request ext (table @ ''/'' @ key)
                              (TLAString (Sprintf_d (length valuesBytes)))]
       \<and> (quiet pre \<and> chan_ok client
            \<and> get_response_valid ext (table @ ''/'' @ key) resp
            \<and> bind (ApplyFunction resp (StringKey ''mresponse''))
                 (\<lambda>mresp. ApplyFunction mresp (StringKey ''ok'')) = Inr (TLABool True)
          \<longrightarrow> fst (Read ext cfg client table key fs (pre @ Response resp # evs'))
                = Returned (Some fmempty, None))"
proof -
  let ?k = "table @ ''/'' @ key"
  have kv: "kvFn ext cfg values = Inr (TLAString (Sprintf_d (length valuesBytes)))"
    using assms by (simp add: kvFn_def)
  have snt: "inCh (fst (snd (Insert ext cfg client table key values evs)))
           = inCh client @ [put_request ext ?k (TLAString (Sprintf_d (length valuesBytes)))]"
    by (simp add: Insert_inCh kv)
  have rd: "fst (Read ext cfg client table key fs (pre @ Response resp # evs'))
                = Returned (Some fmempty, None)"
    if q: "quiet pre" and c: "chan_ok client"
      and g: "get_response_valid ext ?k resp"
      and f: "bind (ApplyFunction resp (StringKey ''mresponse''))
                 (\<lambda>mresp. ApplyFunction mresp (StringKey ''ok'')) = Inr (TLABool True)"
  proof -
    from Read_prefix [OF q c] obtain c' where
      r: "Read ext cfg client table key fs (pre @ Response resp # evs') =
            (outcome_of (Read_response ext cfg ?k (make_fieldFilter fs) resp), c', evs')"
      by blast
    show ?thesis
      using Read_response_ints [OF assms(1) g f, of "make_fieldFilter fs"] by (simp add: r)
  qed
  from kv snt rd show ?thesis by blast
qed

theorem integer_size_mode_witness:
  "useInts cfg_ints \<and> json_Marshal ext0 (Some fmempty) = Inr ''{}''
   \<and> kvFn ext0 cfg_ints (Some fmempty) = Inr (TLAString ''2'')
   \<and> quiet [Timeout] \<and> chan_ok client0
   \<and> get_response_valid ext0 (''usertable'' @ ''/'' @ ''user1'')
        (mk_response True (TLAString ''cgp'') ''usertable/user1'' (TLABool False) True)
   \<and> fst (Read ext0 cfg_ints client0 ''usertable'' ''user1'' [''field1'']
        ([Timeout] @ Response
          (mk_response True (TLAString ''cgp'') ''usertable/user1'' (TLABool False) True) # []))
       = Returned (Some fmempty, None)"
proof -
  let ?r = "mk_response True (TLAString ''cgp'') ''usertable/user1'' (TLABool False) True"
  have u: "useInts cfg_ints" by (simp add: cfg_ints_def)
  have j: "json_Marshal ext0 (Some fmempty) = Inr ''{}''"
    by (simp add: ext0_def json_table_def)
  have d: "Sprintf_d (length ''{}'') = ''2''" by (simp add: Sprintf_d.simps)
  have q: "quiet [Timeout]" by simp
  have c: "chan_ok client0" by simp
  have g: "get_response_valid ext0 (''usertable'' @ ''/'' @ ''user1'') ?r"
    by (simp add: get_response_valid_def ext0_def)
  have f: "bind (ApplyFunction ?r (StringKey ''mresponse''))
           (\<lambda>mresp. ApplyFunction mresp (StringKey ''ok'')) = Inr (TLABool True)"
    by simp
  from integer_size_mode [OF u j, of client0 "''usertable''" "''user1''" "[]" "[Timeout]" ?r
      "[''field1'']" "[]"] u j d q c g f
  show ?thesis by simp
qed

subsection \<open>C6: the request timeout\<close>

text \<open>
  Claim C6. With the signal channel within its capacity of one: each time the request
  timeout elapses, the pending signal, if any, is taken out and one \<open>TLA_TRUE\<close> is put in,
  without blocking, so the channel then holds exactly one signal. As long as a Read or an
  Insert has seen only timeouts (and the runtime taking signals) it is still blocked: it
  has returned nothing, the only request it has sent is its own Get or Put, sent once, and
  the signal channel holds at most one signal. When a response then arrives, the call
  ends as it would have ended had the response arrived at once.
\<close>

theorem timeout_signal_containment:
  assumes "quiet pre" and "chan_ok client"
  shows "on_timeout client = Some (client\<lparr>timeoutCh := [TLA_TRUE]\<rparr>)
       \<and> fst (Read ext cfg client table key fs pre) = Blocked
       \<and> inCh (fst (snd (Read ext cfg client table key fs pre)))
           = inCh client @ [get_request ext (table @ ''/'' @ key)]
       \<and> length (timeoutCh (fst (snd (Read ext cfg client table key fs pre)))) \<le> 1
       \<and> timeoutCh (fst (snd (Read ext cfg client table key fs (pre @ [Timeout]))))
           = [TLA_TRUE]
       \<and> fst (Read ext cfg client table key fs (pre @ Response resp # evs))
           = fst (Read ext cfg client table key fs (Response resp # evs))
       \<and> (kvFn ext cfg values = Inr kv \<longrightarrow>
            fst (Insert ext cfg client table key values pre) = Blocked
          \<and> inCh (fst (snd (Insert ext cfg client table key values pre)))
              = inCh client @ [put_request ext (table @ ''/'' @ key) kv]
          \<and> length (timeoutCh (fst (snd (Insert ext cfg client table key values pre)))) \<le> 1
          \<and> timeoutCh (fst (snd (Insert ext cfg client table key values (pre @ [Timeout]))))
              = [TLA_TRUE]
          \<and> fst (Insert ext cfg client table key values (pre @ Response resp # evs))
              = fst (Insert ext cfg client table key values (Response resp # evs)))"
proof -
  have t: "on_timeout client = Some (client\<lparr>timeoutCh := [TLA_TRUE]\<rparr>)"
    by (rule on_timeout_ok [OF assms(2)])
  from Read_quiet_blocked [OF assms] obtain c where
    c: "Read ext cfg client table key fs pre = (Blocked, c, [])"
       "inCh c = inCh client @ [get_request ext (table @ ''/'' @ key)]" "chan_ok c"
    by blast
  have r1: "fst (Read ext cfg client table key fs pre) = Blocked"
    and r2: "inCh (fst (snd (Read ext cfg client table key fs pre)))
           = inCh client @ [get_request ext (table @ ''/'' @ key)]"
    and r3: "length (timeoutCh (fst (snd (Read ext cfg client table key fs pre)))) \<le> 1"
    using c by (simp_all add: chan_ok_def timeoutCh_cap_def)
  have r4: "timeoutCh (fst (snd (Read ext cfg client table key fs (pre @ [Timeout]))))
           = [TLA_TRUE]"
    by (rule Read_quiet_Timeout [OF assms])
  from Read_prefix [OF assms] obtain c' where
    "Read ext cfg client table key fs (pre @ Response resp # evs) =
       (outcome_of (Read_response ext cfg (table @ ''/'' @ key) (make_fieldFilter fs) resp),
        c', evs)" by blast
  then have r5: "fst (Read ext cfg client table key fs (pre @ Response resp # evs))
           = fst (Read ext cfg client table key fs (Response resp # evs))"
    by (simp add: Read_first_response)
  have i: "fst (Insert ext cfg client table key values pre) = Blocked
          \<and> inCh (fst (snd (Insert ext cfg client table key values pre)))
              = inCh client @ [put_request ext (table @ ''/'' @ key) kv]
          \<and> length (timeoutCh (fst (snd (Insert ext cfg client table key values pre)))) \<le> 1
          \<and> timeoutCh (fst (snd (Insert ext cfg client table key values (pre @ [Timeout]))))
              = [TLA_TRUE]
          \<and> fst (Insert ext cfg client table key values (pre @ Response resp # evs))
              = fst (Insert ext cfg client table key values (Response resp # evs))"
    if k: "kvFn ext cfg values = Inr kv"
  proof -
    from Insert_quiet_blocked [OF assms k] obtain d where
      d: "Insert ext cfg client table key values pre = (Blocked, d, [])"
         "inCh d = inCh client @ [put_request ext (table @ ''/'' @ key) kv]" "chan_ok d"
      by blast
    from Insert_prefix [OF assms k] obtain d' where
      "Insert ext cfg client table key values (pre @ Response resp # evs) =
         (outcome_of (Insert_response ext (table @ ''/'' @ key) kv resp), d', evs)" by blast
    then have "fst (Insert ext cfg client table key values (pre @ Response resp # evs))
              = fst (Insert ext cfg client table key values (Response resp # evs))"
      by (simp add: Insert_first_response [OF k])
    with d Insert_quiet_Timeout [OF assms k, of table key] show ?thesis
      by (simp add: chan_ok_def timeoutCh_cap_def)
  qed
  from t r1 r2 r3 r4 r5 i show ?thesis by blast
qed

theorem timeout_signal_containment_witness:
  "quiet [Timeout, Timeout, SignalTaken, Timeout] \<and> chan_ok client0
   \<and> kvFn ext0 cfg0 (Some fmempty) = Inr (TLAFunction fmempty)
   \<and> fst (Read ext0 cfg0 client0 ''usertable'' ''user1'' []
            [Timeout, Timeout, SignalTaken, Timeout]) = Blocked
   \<and> inCh (fst (snd (Read ext0 cfg0 client0 ''usertable'' ''user1'' []
            [Timeout, Timeout, SignalTaken, Timeout])))
       = inCh client0 @ [get_request ext0 (''usertable'' @ ''/'' @ ''user1'')]
   \<and> length (timeoutCh (fst (snd (Read ext0 cfg0 client0 ''usertable'' ''user1'' []
            [Timeout, Timeout, SignalTaken, Timeout])))) \<le> 1
   \<and> fst (Insert ext0 cfg0 client0 ''usertable'' ''user1'' (Some fmempty)
            [Timeout, Timeout, SignalTaken, Timeout]) = Blocked"
proof -
  have q: "quiet [Timeout, Timeout, SignalTaken, Timeout]" by simp
  have c: "chan_ok client0" by simp
  have k: "kvFn ext0 cfg0 (Some fmempty) = Inr (TLAFunction fmempty)"
    by (simp add: kvFn_def cfg0_def entries_def)
  from timeout_signal_containment [OF q c, of ext0 cfg0 "''usertable''" "''user1''" "[]"
      _ _ "Some fmempty" "TLAFunction fmempty"] q c k
  show ?thesis by blast
qed

subsection \<open>C1: Update\<close>

text \<open>
  Claim C1, as stated, fails in two ways. When the Get response reports the key absent,
  Update returns the error and sends no Put. In integer-size mode the Put carries only a
  length, and a Read that follows the Update returns the empty map, not the merged one.
\<close>

theorem Update_counterexample:
  "fst (Update ext0 cfg0 client0 ''usertable'' ''user1'' (Some (fmupd ''field0'' ''v'' fmempty))
         [Response (mk_response True (TLAString ''cgp'') ''usertable/user1'' (TLAString []) False),
          Response (mk_response True (TLAString ''cpp'') ''usertable/user1''
                      (TLAFunction (string_record (fmupd ''field0'' ''v'' fmempty))) True)])
     = Returned (Some (Errorf ''key not found: usertable/user1''))
   \<and> inCh (fst (snd (Update ext0 cfg0 client0 ''usertable'' ''user1''
         (Some (fmupd ''field0'' ''v'' fmempty))
         [Response (mk_response True (TLAString ''cgp'') ''usertable/user1'' (TLAString []) False),
          Response (mk_response True (TLAString ''cpp'') ''usertable/user1''
                      (TLAFunction (string_record (fmupd ''field0'' ''v'' fmempty))) True)])))
     = [get_request ext0 ''usertable/user1'']
   \<and> Update ext0 cfg_ints client0 ''usertable'' ''user1'' (Some (fmupd ''field0'' ''v'' fmempty))
         [Response (mk_response True (TLAString ''cgp'') ''usertable/user1'' (TLAString ''2'') True),
          Response (mk_response True (TLAString ''cpp'') ''usertable/user1'' (TLAString ''17'') True)]
     = (Returned None,
        client0\<lparr>inCh := [get_request ext0 ''usertable/user1'',
                          put_request ext0 ''usertable/user1'' (TLAString ''17'')]\<rparr>,
        [])
   \<and> fst (Read ext0 cfg_ints
            (client0\<lparr>inCh := [get_request ext0 ''usertable/user1'',
                          put_request ext0 ''usertable/user1'' (TLAString ''17'')]\<rparr>)
            ''usertable'' ''user1'' []
            [Response (mk_response True (TLAString ''cgp'') ''usertable/user1''
                         (TLAString ''17'') True)])
     = Returned (Some fmempty, None)
   \<and> fmempty ++\<^sub>f fmupd ''field0'' ''v'' fmempty \<noteq> (fmempty :: fields)"
proof -
  have d: "Sprintf_d 17 = ''17''" by (simp add: Sprintf_d.simps)
  obtain bs where j: "json_table (Some (fmupd ''field0'' ''v'' fmempty)) = Inr bs"
    and l: "length bs = 17"
    by (simp add: json_table_def)
  have k: "kvFn ext0 cfg_ints (Some (fmupd ''field0'' ''v'' fmempty)) = Inr (TLAString ''17'')"
    by (simp add: kvFn_def cfg_ints_def ext0_def j l d)
  have 1: "Read_response ext0 cfg0 ''usertable/user1'' None
             (mk_response True (TLAString ''cgp'') ''usertable/user1'' (TLAString []) False)
           = Inr (None, Some (Errorf ''key not found: usertable/user1''))"
    by (simp add: Read_response_def mk_response_def MakeTLARecord_def ext0_def)
  have 2: "Read_response ext0 cfg_ints ''usertable/user1'' None
             (mk_response True (TLAString ''cgp'') ''usertable/user1'' (TLAString v) True)
           = Inr (Some fmempty, None)" for v
    by (simp add: Read_response_def mk_response_def MakeTLARecord_def ext0_def cfg_ints_def)
  have 3: "Insert_response ext0 ''usertable/user1'' (TLAString ''17'')
             (mk_response True (TLAString ''cpp'') ''usertable/user1'' (TLAString ''17'') True)
           = Inr None"
    by (simp add: Insert_response_def mk_response_def MakeTLARecord_def ext0_def)
  show ?thesis
    by (simp add: Update_def Read_def Insert_def make_fieldFilter_def 1 2 3 k assign_all_def
          entries_def Let_def client0_def)
qed

text \<open>
  Claim C1, amended. Update performs a Read of all fields for the flat key \<open>table/key\<close>.
  When that Read returns a field map \<open>prior\<close> (the key was found), Update is an Insert of
  the merged map, on the thread and events the Read left: in the merged map a field
  supplied in \<open>values\<close> has the supplied value and every other field has its value in
  \<open>prior\<close>. The requests sent are the Get and then, unless encoding the merged map panics,
  one Put carrying the encoded merged map. In structured mode, a Read of all fields that
  follows on the same thread and whose valid response reports the key found with the
  value that Put carried (no other writer came between) returns the merged map.
\<close>

theorem Update_read_modify_write:
  assumes "fst (Read ext cfg client table key [] evs) = Returned (Some prior, None)"
    and "chan_ok client"
  shows "Update ext cfg client table key values evs
           = Insert ext cfg (fst (snd (Read ext cfg client table key [] evs))) table key
               (Some (prior ++\<^sub>f entries values))
               (snd (snd (Read ext cfg client table key [] evs)))
       \<and> (\<forall>f. fmlookup (prior ++\<^sub>f entries values) f
                = (case fmlookup (entries values) f of
                     Some v \<Rightarrow> Some v
                   | None \<Rightarrow> fmlookup prior f))
       \<and> inCh (fst (snd (Update ext cfg client table key values evs)))
           = inCh client @ get_request ext (table @ ''/'' @ key)
               # (case kvFn ext cfg (Some (prior ++\<^sub>f entries values)) of
                    Inl p \<Rightarrow> []
                  | Inr kv \<Rightarrow> [put_request ext (table @ ''/'' @ key) kv])
       \<and> (\<not> useInts cfg \<and> quiet pre
            \<and> get_response_valid ext (table @ ''/'' @ key) resp
            \<and> bind (ApplyFunction resp (StringKey ''mresponse''))
                 (\<lambda>mresp. ApplyFunction mresp (StringKey ''ok'')) = Inr (TLABool True)
            \<and> bind (ApplyFunction resp (StringKey ''mresponse''))
                 (\<lambda>mresp. ApplyFunction mresp (StringKey ''value''))
                = kvFn ext cfg (Some (prior ++\<^sub>f entries values))
          \<longrightarrow> fst (Read ext cfg (fst (snd (Update ext cfg client table key values evs)))
                      table key [] (pre @ Response resp # evs'))
                = Returned (Some (prior ++\<^sub>f entries values), None))"
proof -
  let ?k = "table @ ''/'' @ key"
  let ?m = "prior ++\<^sub>f entries values"
  let ?c = "fst (snd (Update ext cfg client table key values evs))"
  have u: "Update ext cfg client table key values evs
           = Insert ext cfg (fst (snd (Read ext cfg client table key [] evs))) table key
               (Some ?m) (snd (snd (Read ext cfg client table key [] evs)))"
    by (rule Update_found [OF assms(1)])
  have m: "\<forall>f. fmlookup ?m f
                = (case fmlookup (entries values) f of
                     Some v \<Rightarrow> Some v
                   | None \<Rightarrow> fmlookup prior f)"
    by (rule allI) (rule fmlookup_merge)
  have s: "inCh ?c = inCh client @ get_request ext ?k
               # (case kvFn ext cfg (Some ?m) of
                    Inl p \<Rightarrow> []
                  | Inr kv \<Rightarrow> [put_request ext ?k kv])"
    by (simp add: u Insert_inCh Read_inCh)
  have r: "fst (Read ext cfg ?c table key [] (pre @ Response resp # evs'))
                = Returned (Some ?m, None)"
    if n: "\<not> useInts cfg" and q: "quiet pre"
      and g: "get_response_valid ext ?k resp"
      and f: "bind (ApplyFunction resp (StringKey ''mresponse''))
                 (\<lambda>mresp. ApplyFunction mresp (StringKey ''ok'')) = Inr (TLABool True)"
      and v: "bind (ApplyFunction resp (StringKey ''mresponse''))
                 (\<lambda>mresp. ApplyFunction mresp (StringKey ''value''))
                = kvFn ext cfg (Some ?m)"
  proof -
    have c: "chan_ok ?c" by (rule Update_chan_ok [OF assms(2)])
    from Read_prefix [OF q c] obtain c' where
      rd: "Read ext cfg ?c table key [] (pre @ Response resp # evs') =
            (outcome_of (Read_response ext cfg ?k (make_fieldFilter []) resp), c', evs')"
      by blast
    from v n have v': "bind (ApplyFunction resp (StringKey ''mresponse''))
                 (\<lambda>mresp. ApplyFunction mresp (StringKey ''value''))
                 = Inr (TLAFunction (string_record ?m))"
      by (simp add: kvFn_def entries_def)
    show ?thesis
      using Read_response_structured [OF n g f v', of "[]"] by (simp add: rd)
  qed
  from u m s r show ?thesis by blast
qed

theorem Update_read_modify_write_witness:
  "fst (Read ext0 cfg0 client0 ''usertable'' ''user1'' []
         ([Timeout] @ Response
            (mk_response True (TLAString ''cgp'') ''usertable/user1''
               (TLAFunction (string_record (fmupd ''field1'' ''b'' fmempty))) True)
          # [Response
              (mk_response True (TLAString ''cpp'') ''usertable/user1''
                 (TLAFunction (string_record
                    (fmupd ''field1'' ''b'' fmempty
                       ++\<^sub>f entries (Some (fmupd ''field0'' ''v'' fmempty))))) True)]))
     = Returned (Some (fmupd ''field1'' ''b'' fmempty), None)
   \<and> chan_ok client0 \<and> \<not> useInts cfg0 \<and> quiet [Timeout, Timeout]
   \<and> get_response_valid ext0 (''usertable'' @ ''/'' @ ''user1'')
        (mk_response True (TLAString ''cgp'') ''usertable/user1''
           (TLAFunction (string_record
              (fmupd ''field1'' ''b'' fmempty
                 ++\<^sub>f entries (Some (fmupd ''field0'' ''v'' fmempty))))) True)
   \<and> fst (Read ext0 cfg0
        (fst (snd (Update ext0 cfg0 client0 ''usertable'' ''user1''
           (Some (fmupd ''field0'' ''v'' fmempty))
           ([Timeout] @ Response
              (mk_response True (TLAString ''cgp'') ''usertable/user1''
                 (TLAFunction (string_record (fmupd ''field1'' ''b'' fmempty))) True)
            # [Response
                (mk_response True (TLAString ''cpp'') ''usertable/user1''
                   (TLAFunction (string_record
                      (fmupd ''field1'' ''b'' fmempty
                         ++\<^sub>f entries (Some (fmupd ''field0'' ''v'' fmempty))))) True)]))))
        ''usertable'' ''user1'' []
        ([Timeout, Timeout] @ Response
           (mk_response True (TLAString ''cgp'') ''usertable/user1''
              (TLAFunction (string_record
                 (fmupd ''field1'' ''b'' fmempty
                    ++\<^sub>f entries (Some (fmupd ''field0'' ''v'' fmempty))))) True) # []))
     = Returned (Some (fmupd ''field1'' ''b'' fmempty
                         ++\<^sub>f entries (Some (fmupd ''field0'' ''v'' fmempty))), None)"
proof -
  let ?prior = "fmupd ''field1'' ''b'' fmempty :: fields"
  let ?vals = "Some (fmupd ''field0'' ''v'' fmempty) :: gomap"
  let ?m = "?prior ++\<^sub>f entries ?vals"
  let ?g = "mk_response True (TLAString ''cgp'') ''usertable/user1''
              (TLAFunction (string_record ?prior)) True"
  let ?p = "mk_response True (TLAString ''cpp'') ''usertable/user1''
              (TLAFunction (string_record ?m)) True"
  let ?g' = "mk_response True (TLAString ''cgp'') ''usertable/user1''
              (TLAFunction (string_record ?m)) True"
  let ?evs = "[Timeout] @ Response ?g # [Response ?p]"
  have n: "\<not> useInts cfg0" by (simp add: cfg0_def)
  have c: "chan_ok client0" by simp
  have q1: "quiet [Timeout]" by simp
  have q: "quiet [Timeout, Timeout]" by simp
  have g: "get_response_valid ext0 (''usertable'' @ ''/'' @ ''user1'') ?g"
    by (simp add: get_response_valid_def ext0_def)
  have g': "get_response_valid ext0 (''usertable'' @ ''/'' @ ''user1'') ?g'"
    by (simp add: get_response_valid_def ext0_def)
  have f: "bind (ApplyFunction ?g (StringKey ''mresponse''))
           (\<lambda>mresp. ApplyFunction mresp (StringKey ''ok'')) = Inr (TLABool True)"
    by simp
  have f': "bind (ApplyFunction ?g' (StringKey ''mresponse''))
           (\<lambda>mresp. ApplyFunction mresp (StringKey ''ok'')) = Inr (TLABool True)"
    by simp
  have v: "bind (ApplyFunction ?g (StringKey ''mresponse''))
           (\<lambda>mresp. ApplyFunction mresp (StringKey ''value''))
           = Inr (TLAFunction (string_record ?prior))"
    by simp
  have v': "bind (ApplyFunction ?g' (StringKey ''mresponse''))
           (\<lambda>mresp. ApplyFunction mresp (StringKey ''value'')) = kvFn ext0 cfg0 (Some ?m)"
    using n by (simp add: kvFn_def entries_def)
  from Read_prefix [OF q1 c, of ext0 cfg0 "''usertable''" "''user1''" "[]" ?g "[Response ?p]"]
  obtain c' where
    "Read ext0 cfg0 client0 ''usertable'' ''user1'' [] ?evs =
       (outcome_of (Read_response ext0 cfg0 (''usertable'' @ ''/'' @ ''user1'')
          (make_fieldFilter []) ?g), c', [Response ?p])"
    by blast
  with Read_response_structured [OF n g f v, of "[]"]
  have r: "fst (Read ext0 cfg0 client0 ''usertable'' ''user1'' [] ?evs)
             = Returned (Some ?prior, None)"
    by simp
  from Update_read_modify_write [OF r c, of ?vals "[Timeout, Timeout]" ?g' "[]"]
    r c n q g' f' v'
  show ?thesis by blast
qed

end
